theory Spec2Isabelle
  imports Complex_Main
begin

section \<open>Values, errors and the session store\<close>

text \<open>
  The payloads handed to the observer are Python dictionaries with string keys and
  dynamically typed values. The values that the aggregation code can meet are modelled
  by \<open>pyval\<close>; Python's \<open>float\<close> is idealised as \<open>real\<close> (no rounding, no
  infinities), and \<open>datetime\<close> values are integer microsecond counts.
\<close>

datatype pyval = PNone | PBool bool | PInt int | PFloat real | PStr string

type_synonym pydict = "string \<rightharpoonup> pyval"

datatype error =
    RuntimeError string
  | KeyError string
  | TypeError
  | ValueError
  | IndexError
  | AttributeError

record decision =
  timestamp :: int
  agent_id :: string
  inputs :: pydict
  outputs :: pydict
  metadata :: pydict

record counters =
  total_tokens :: int
  total_time :: int
  success_count :: int
  failure_count :: int

record session_data =
  start_time :: int
  end_time :: "int option"
  decisions :: "decision list"
  metrics :: counters

record observer =
  observations :: "string \<rightharpoonup> session_data"
  current_session :: "string option"

record averages =
  avg_response_time :: real
  avg_token_usage :: real
  success_rate :: real

record session_metrics =
  duration :: real
  decision_count :: nat
  agents :: "string set"
  averages :: averages

text \<open>\<open>Observer.__init__\<close>: no observations, no current session.\<close>

definition init_observer :: observer where
  "init_observer = \<lparr>observations = Map.empty, current_session = None\<rparr>"

text \<open>
  Python truthiness of the current-session pointer: \<open>None\<close> and the empty string are
  both false.
\<close>

definition active :: "string option \<Rightarrow> bool" where
  "active cur = (case cur of None \<Rightarrow> False | Some s \<Rightarrow> s \<noteq> [])"

definition new_session :: "int \<Rightarrow> session_data" where
  "new_session now =
     \<lparr>start_time = now, end_time = None, decisions = [],
      metrics = \<lparr>total_tokens = 0, total_time = 0, success_count = 0, failure_count = 0\<rparr>\<rparr>"

text \<open>
  \<open>Observer.session\<close> is a generator-based context manager. \<open>session_enter\<close> is the
  part before the \<open>yield\<close>; \<open>uuid\<close> is the text that \<open>str(uuid.uuid4())\<close> would
  produce and \<open>now\<close> the reading of \<open>datetime.now()\<close>.
\<close>

definition session_enter :: "string option \<Rightarrow> string \<Rightarrow> int \<Rightarrow> observer \<Rightarrow> string \<times> observer" where
  "session_enter session_name uuid now obs =
     (let session_id = (if active session_name then the session_name else uuid)
      in (session_id,
          obs\<lparr>current_session := Some session_id,
              observations := (observations obs)(session_id \<mapsto> new_session now)\<rparr>))"

text \<open>
  \<open>session_exit\<close> is the \<open>finally\<close> block. The subscript
  \<open>self.observations[self.current_session]\<close> raises \<open>KeyError\<close> for a key that is
  not stored; the pointer is then left as it was.
\<close>

definition session_exit :: "int \<Rightarrow> observer \<Rightarrow> (error + unit) \<times> observer" where
  "session_exit now obs =
     (if active (current_session obs) then
        (let cur = the (current_session obs) in
         case observations obs cur of
           None \<Rightarrow> (Inl (KeyError cur), obs)
         | Some s \<Rightarrow>
             (Inr (),
              obs\<lparr>observations := (observations obs)(cur \<mapsto> s\<lparr>end_time := Some now\<rparr>),
                  current_session := None\<rparr>))
      else (Inr (), obs))"

text \<open>
  The whole \<open>with observer.session(name) as sid: body\<close> statement. The body is any
  state transformer that either returns a value or raises; in both cases the
  \<open>finally\<close> block runs afterwards, and an error raised by the block itself replaces
  the outcome of the body.
\<close>

definition session ::
  "string option \<Rightarrow> string \<Rightarrow> int \<Rightarrow> int \<Rightarrow>
   (string \<Rightarrow> observer \<Rightarrow> (error + 'a) \<times> observer) \<Rightarrow> observer \<Rightarrow> (error + 'a) \<times> observer" where
  "session session_name uuid t_enter t_exit body obs =
     (let (session_id, obs1) = session_enter session_name uuid t_enter obs;
          (r, obs2) = body session_id obs1;
          (e, obs3) = session_exit t_exit obs2
      in case e of Inl err \<Rightarrow> (Inl err, obs3) | Inr _ \<Rightarrow> (r, obs3))"

definition no_active_session :: error where
  "no_active_session =
     RuntimeError ''No active session. Use 'with observer.session():' to create one.''"

definition track_decision ::
  "int \<Rightarrow> string \<Rightarrow> pydict \<Rightarrow> pydict \<Rightarrow> pydict option \<Rightarrow> observer \<Rightarrow> (error + unit) \<times> observer" where
  "track_decision now agent ins outs md obs =
     (if \<not> active (current_session obs) then (Inl no_active_session, obs)
      else
        (let cur = the (current_session obs);
             d = \<lparr>timestamp = now, agent_id = agent, inputs = ins, outputs = outs,
                  metadata = (case md of None \<Rightarrow> Map.empty | Some m \<Rightarrow> m)\<rparr>
         in case observations obs cur of
              None \<Rightarrow> (Inl (KeyError cur), obs)
            | Some s \<Rightarrow>
                (Inr (),
                 obs\<lparr>observations := (observations obs)(cur \<mapsto> s\<lparr>decisions := decisions s @ [d]\<rparr>)\<rparr>)))"

subsection \<open>Metrics\<close>

text \<open>\<open>dict.get(key, default)\<close>.\<close>

definition dict_get :: "pydict \<Rightarrow> string \<Rightarrow> pyval \<Rightarrow> pyval" where
  "dict_get m k dflt = (case m k of None \<Rightarrow> dflt | Some v \<Rightarrow> v)"

text \<open>
  The operand of \<open>+=\<close> on a numeric total: numbers (and booleans, which are integers in
  Python) are added, anything else raises \<open>TypeError\<close>.
\<close>

fun num_of :: "pyval \<Rightarrow> real option" where
  "num_of (PBool b) = Some (if b then 1 else 0)"
| "num_of (PInt i) = Some (real_of_int i)"
| "num_of (PFloat r) = Some r"
| "num_of PNone = None"
| "num_of (PStr s) = None"

fun truthy :: "pyval \<Rightarrow> bool" where
  "truthy PNone = False"
| "truthy (PBool b) = b"
| "truthy (PInt i) = (i \<noteq> 0)"
| "truthy (PFloat r) = (r \<noteq> 0)"
| "truthy (PStr s) = (s \<noteq> [])"

text \<open>
  The \<open>for\<close> loop of \<open>_calculate_averages\<close>; the accumulator holds
  \<open>totals['response_time']\<close>, \<open>totals['token_usage']\<close> and \<open>totals['success_rate']\<close>.
\<close>

fun add_totals :: "decision list \<Rightarrow> real \<times> real \<times> real \<Rightarrow> error + real \<times> real \<times> real" where
  "add_totals [] totals = Inr totals"
| "add_totals (d # ds) (rt, tu, sr) =
     (case num_of (dict_get (metadata d) ''response_time'' (PInt 0)) of
        None \<Rightarrow> Inl TypeError
      | Some x \<Rightarrow>
          (case num_of (dict_get (metadata d) ''token_usage'' (PInt 0)) of
             None \<Rightarrow> Inl TypeError
           | Some y \<Rightarrow>
               add_totals ds
                 (rt + x, tu + y,
                  sr + (if truthy (dict_get (metadata d) ''success'' (PBool False)) then 1 else 0))))"

definition calculate_averages :: "decision list \<Rightarrow> error + averages" where
  "calculate_averages ds =
     (if ds = [] then Inr \<lparr>avg_response_time = 0, avg_token_usage = 0, success_rate = 0\<rparr>
      else
        case add_totals ds (0, 0, 0) of
          Inl e \<Rightarrow> Inl e
        | Inr (rt, tu, sr) \<Rightarrow>
            (let count = real (length ds)
             in Inr \<lparr>avg_response_time = rt / count, avg_token_usage = tu / count,
                     success_rate = (sr / count) * 100\<rparr>))"

definition session_not_found :: "string \<Rightarrow> error" where
  "session_not_found session_id = KeyError (''Session '' @ session_id @ '' not found'')"

definition get_session_metrics :: "int \<Rightarrow> string \<Rightarrow> observer \<Rightarrow> error + session_metrics" where
  "get_session_metrics now session_id obs =
     (case observations obs session_id of
        None \<Rightarrow> Inl (session_not_found session_id)
      | Some s \<Rightarrow>
          (let ds = decisions s;
               end = (case end_time s of None \<Rightarrow> now | Some e \<Rightarrow> e);
               dur = real_of_int (end - start_time s) / 1000000
           in case calculate_averages ds of
                Inl e \<Rightarrow> Inl e
              | Inr av \<Rightarrow>
                  Inr \<lparr>duration = dur, decision_count = length ds,
                       agents = set (map agent_id ds), averages = av\<rparr>))"

subsection \<open>The data model's view of a decision record\<close>

text \<open>
  The data model gives the recognised metadata keys their types: \<open>response_time\<close> is a
  number of seconds, \<open>token_usage\<close> a number and \<open>success\<close> a boolean; every key is
  optional. The following definitions read a record in these words; they are what the
  aggregation code is compared with.
\<close>

fun is_number :: "pyval \<Rightarrow> bool" where
  "is_number (PInt i) = True"
| "is_number (PFloat r) = True"
| "is_number v = False"

fun is_bool :: "pyval \<Rightarrow> bool" where
  "is_bool (PBool b) = True"
| "is_bool v = False"

fun number_value :: "pyval \<Rightarrow> real" where
  "number_value (PInt i) = real_of_int i"
| "number_value (PFloat r) = r"
| "number_value v = 0"

definition well_typed_metadata :: "pydict \<Rightarrow> bool" where
  "well_typed_metadata m =
     ((case m ''response_time'' of None \<Rightarrow> True | Some v \<Rightarrow> is_number v) \<and>
      (case m ''token_usage'' of None \<Rightarrow> True | Some v \<Rightarrow> is_number v) \<and>
      (case m ''success'' of None \<Rightarrow> True | Some v \<Rightarrow> is_bool v))"

definition response_time_of :: "decision \<Rightarrow> real" where
  "response_time_of d = (case metadata d ''response_time'' of None \<Rightarrow> 0 | Some v \<Rightarrow> number_value v)"

definition token_usage_of :: "decision \<Rightarrow> real" where
  "token_usage_of d = (case metadata d ''token_usage'' of None \<Rightarrow> 0 | Some v \<Rightarrow> number_value v)"

definition succeeded :: "decision \<Rightarrow> bool" where
  "succeeded d = (metadata d ''success'' = Some (PBool True))"

definition mean :: "real list \<Rightarrow> real" where
  "mean xs = sum_list xs / real (length xs)"

definition scenario_decisions :: "decision list" where
  "scenario_decisions =
     [\<lparr>timestamp = 1, agent_id = ''agentA'', inputs = Map.empty, outputs = Map.empty,
       metadata = [''success'' \<mapsto> PBool True, ''response_time'' \<mapsto> PFloat 1]\<rparr>,
      \<lparr>timestamp = 2, agent_id = ''agentA'', inputs = Map.empty, outputs = Map.empty,
       metadata = [''success'' \<mapsto> PBool False, ''response_time'' \<mapsto> PFloat 3]\<rparr>]"

definition scenario_observer :: observer where
  "scenario_observer =
     \<lparr>observations = [''s1'' \<mapsto> \<lparr>start_time = 0, end_time = Some 5000000,
          decisions = scenario_decisions,
          metrics = \<lparr>total_tokens = 0, total_time = 0, success_count = 0, failure_count = 0\<rparr>\<rparr>],
      current_session = None\<rparr>"

text \<open>
  Two sessions that \<open>track_decision\<close> can build, since it stores any metadata as it
  is: one record whose \<open>success\<close> is the text "no", and one record whose
  \<open>response_time\<close> is the text "1.5".
\<close>

definition untyped_decisions :: "decision list" where
  "untyped_decisions =
     [\<lparr>timestamp = 1, agent_id = ''agentA'', inputs = Map.empty, outputs = Map.empty,
       metadata = [''success'' \<mapsto> PStr ''no'']\<rparr>]"

definition untyped_observer :: observer where
  "untyped_observer =
     \<lparr>observations =
        [''s1'' \<mapsto> \<lparr>start_time = 0, end_time = Some 5000000, decisions = untyped_decisions,
           metrics = \<lparr>total_tokens = 0, total_time = 0, success_count = 0, failure_count = 0\<rparr>\<rparr>,
         ''s2'' \<mapsto> \<lparr>start_time = 0, end_time = Some 5000000,
           decisions =
             [\<lparr>timestamp = 1, agent_id = ''agentA'', inputs = Map.empty, outputs = Map.empty,
               metadata = [''response_time'' \<mapsto> PStr ''1.5'']\<rparr>],
           metrics = \<lparr>total_tokens = 0, total_time = 0, success_count = 0, failure_count = 0\<rparr>\<rparr>],
      current_session = None\<rparr>"

subsection \<open>States reachable through the interface\<close>

text \<open>
  The states that a caller can reach from a fresh observer by entering scopes, leaving
  them (the \<open>finally\<close> block) and tracking decisions, in any order and nesting, while
  the clock readings never decrease. The first argument is the latest reading.
\<close>

inductive reachable :: "int \<Rightarrow> observer \<Rightarrow> bool" where
  reach_init: "reachable t init_observer"
| reach_enter: "reachable t obs \<Longrightarrow> t \<le> t' \<Longrightarrow> uuid \<noteq> [] \<Longrightarrow>
     reachable t' (snd (session_enter session_name uuid t' obs))"
| reach_exit: "reachable t obs \<Longrightarrow> t \<le> t' \<Longrightarrow> reachable t' (snd (session_exit t' obs))"
| reach_track: "reachable t obs \<Longrightarrow> t \<le> t' \<Longrightarrow>
     reachable t' (snd (track_decision t' agent ins outs md obs))"

definition closed_in_order :: "session_data \<Rightarrow> bool" where
  "closed_in_order s = (case end_time s of None \<Rightarrow> True | Some e \<Rightarrow> start_time s \<le> e)"

definition store_ok :: "int \<Rightarrow> observer \<Rightarrow> bool" where
  "store_ok t obs =
     ((\<forall>sid s. observations obs sid = Some s \<longrightarrow> start_time s \<le> t \<and> closed_in_order s) \<and>
      (\<forall>cur. current_session obs = Some cur \<longrightarrow> cur \<noteq> [] \<and> observations obs cur \<noteq> None))"

text \<open>
  Two \<open>with\<close> statements, one inside the other, with a body that does nothing, and a
  body that tracks one decision and then raises.
\<close>

definition nested_scopes :: "(error + unit) \<times> observer" where
  "nested_scopes =
     session (Some ''outer'') ''u1'' 0 3
       (\<lambda>sid. session (Some ''inner'') ''u2'' 1 2 (\<lambda>sid obs. (Inr (), obs)))
       init_observer"

definition failing_body :: "string \<Rightarrow> observer \<Rightarrow> (error + unit) \<times> observer" where
  "failing_body sid obs =
     (Inl (RuntimeError ''agent failed''),
      snd (track_decision 2 ''agentA'' Map.empty Map.empty None obs))"

section \<open>Adapters\<close>

subsection \<open>Strings\<close>

text \<open>
  Text is modelled as a list of 8-bit characters. The string methods below are the ones
  the adapters call; case mapping is defined on the ASCII letters, which is all that the
  comparisons with ASCII words in the adapters can observe.
\<close>

text \<open>\<open>s.startswith(pre)\<close>.\<close>

fun startswith :: "string \<Rightarrow> string \<Rightarrow> bool" where
  "startswith s [] = True"
| "startswith [] (p # ps) = False"
| "startswith (c # cs) (p # ps) = (c = p \<and> startswith cs ps)"

text \<open>\<open>s.find(sub)\<close>: the index of the first occurrence, if there is one.\<close>

fun py_find :: "string \<Rightarrow> string \<Rightarrow> nat option" where
  "py_find sub [] = (if sub = [] then Some 0 else None)"
| "py_find sub (c # cs) =
     (if startswith (c # cs) sub then Some 0 else map_option Suc (py_find sub cs))"

text \<open>\<open>sub in s\<close>.\<close>

definition py_in :: "string \<Rightarrow> string \<Rightarrow> bool" where
  "py_in sub s = (py_find sub s \<noteq> None)"

definition lower_char :: "char \<Rightarrow> char" where
  "lower_char c =
     (case map_of (zip ''ABCDEFGHIJKLMNOPQRSTUVWXYZ'' ''abcdefghijklmnopqrstuvwxyz'') c of
        None \<Rightarrow> c | Some l \<Rightarrow> l)"

definition upper_char :: "char \<Rightarrow> char" where
  "upper_char c =
     (case map_of (zip ''abcdefghijklmnopqrstuvwxyz'' ''ABCDEFGHIJKLMNOPQRSTUVWXYZ'') c of
        None \<Rightarrow> c | Some u \<Rightarrow> u)"

definition py_lower :: "string \<Rightarrow> string" where
  "py_lower s = map lower_char s"

definition py_upper :: "string \<Rightarrow> string" where
  "py_upper s = map upper_char s"

text \<open>
  The characters that \<open>str.strip()\<close> removes: the code points below 256 for which
  \<open>str.isspace\<close> holds.
\<close>

definition py_isspace :: "char \<Rightarrow> bool" where
  "py_isspace c =
     (c \<in> {CHR 0x09, CHR 0x0A, CHR 0x0B, CHR 0x0C, CHR 0x0D, CHR 0x1C, CHR 0x1D, CHR 0x1E,
            CHR 0x1F, CHR 0x20, CHR 0x85, CHR 0xA0})"

definition py_strip :: "string \<Rightarrow> string" where
  "py_strip s = rev (dropWhile py_isspace (rev (dropWhile py_isspace s)))"

text \<open>
  \<open>s.split(sep, maxsplit)\<close> for a non-empty separator; \<open>maxsplit = -1\<close> is Python's
  default and sets no limit. An empty separator raises \<open>ValueError\<close>.
\<close>

function py_split_loop :: "string \<Rightarrow> int \<Rightarrow> string \<Rightarrow> string list" where
  "py_split_loop sep maxsplit s =
     (if maxsplit = 0 \<or> sep = [] then [s]
      else case py_find sep s of
             None \<Rightarrow> [s]
           | Some i \<Rightarrow> take i s # py_split_loop sep (maxsplit - 1) (drop (i + length sep) s))"
  by pat_completeness auto
termination
proof (relation "measure (\<lambda>(sep, maxsplit, s). length s)")
  show "wf (measure (\<lambda>(sep, maxsplit, s). length s))" by simp
next
  fix sep :: string and maxsplit :: int and s :: string and i :: nat
  assume a: "\<not> (maxsplit = 0 \<or> sep = [])" and f: "py_find sep s = Some i"
  have "s \<noteq> []"
  proof
    assume "s = []"
    with a f show False by simp
  qed
  with a show "((sep, maxsplit - 1, drop (i + length sep) s), (sep, maxsplit, s))
      \<in> measure (\<lambda>(sep, maxsplit, s). length s)"
    by (cases sep) simp_all
qed

declare py_split_loop.simps [simp del]

definition py_split :: "string \<Rightarrow> int \<Rightarrow> string \<Rightarrow> error + string list" where
  "py_split sep maxsplit s =
     (if sep = [] then Inl ValueError else Inr (py_split_loop sep maxsplit s))"

text \<open>\<open>xs[i]\<close> for a non-negative index.\<close>

definition py_index :: "'a list \<Rightarrow> nat \<Rightarrow> error + 'a" where
  "py_index xs i = (if i < length xs then Inr (xs ! i) else Inl IndexError)"

text \<open>Sequencing of two computations that may raise.\<close>

definition and_then :: "error + 'a \<Rightarrow> ('a \<Rightarrow> error + 'b) \<Rightarrow> error + 'b" where
  "and_then m f = (case m of Inl e \<Rightarrow> Inl e | Inr x \<Rightarrow> f x)"

subsection \<open>Confidence levels\<close>

datatype DecisionConfidence = LOW | MEDIUM | HIGH

text \<open>\<open>SwarmAdapter._convert_swarm_confidence\<close>, on a numeric confidence.\<close>

definition convert_swarm_confidence :: "real \<Rightarrow> DecisionConfidence" where
  "convert_swarm_confidence confidence =
     (if confidence < 0.4 then LOW
      else if confidence < 0.7 then MEDIUM
      else HIGH)"

text \<open>\<open>EnhancedAgent._determine_confidence\<close>, on the text of a model response.\<close>

definition determine_confidence :: "string \<Rightarrow> DecisionConfidence" where
  "determine_confidence text =
     (if py_in ''uncertain'' (py_lower text) \<or> py_in ''unclear'' (py_lower text) then LOW
      else if py_in ''likely'' (py_lower text) \<or> py_in ''probably'' (py_lower text) then MEDIUM
      else HIGH)"

text \<open>
  \<open>GenericAgentAdapter._determine_confidence\<close>, on a step dictionary. The method
  \<open>upper\<close> exists on strings only; any other value under the key raises
  \<open>AttributeError\<close>.
\<close>

definition generic_determine_confidence :: "pydict \<Rightarrow> error + string" where
  "generic_determine_confidence step =
     (case dict_get step ''confidence'' (PStr []) of
        PStr s \<Rightarrow>
          (let confidence = py_upper s
           in if confidence \<in> set [''LOW'', ''MEDIUM'', ''HIGH''] then Inr confidence
              else Inr ''MEDIUM'')
      | _ \<Rightarrow> Inl AttributeError)"

subsection \<open>Integers in text\<close>

text \<open>
  \<open>int(s)\<close> on a string, base ten: white space around the number is skipped, one sign
  may come first, and the digits may be separated by single underscores. The number of
  digits is limited (CPython's default limit for the conversion of text to \<open>int\<close>);
  every failure is a \<open>ValueError\<close>.
\<close>

definition digit_value :: "char \<Rightarrow> nat option" where
  "digit_value c = map_of (zip ''0123456789'' [0, 1, 2, 3, 4, 5, 6, 7, 8, 9]) c"

fun digits_of :: "string \<Rightarrow> nat list option" where
  "digits_of [] = None"
| "digits_of (c # cs) =
     (case digit_value c of
        None \<Rightarrow> None
      | Some d \<Rightarrow>
          (if cs = [] then Some [d]
           else map_option ((#) d) (digits_of (if hd cs = CHR ''_'' then tl cs else cs))))"

definition dec_value :: "nat list \<Rightarrow> nat" where
  "dec_value ds = foldl (\<lambda>a d. 10 * a + d) 0 ds"

definition int_isspace :: "char \<Rightarrow> bool" where
  "int_isspace c =
     (c \<in> {CHR 0x09, CHR 0x0A, CHR 0x0B, CHR 0x0C, CHR 0x0D, CHR 0x20, CHR 0x85, CHR 0xA0})"

definition int_max_str_digits :: nat where
  "int_max_str_digits = 4300"

definition py_int :: "string \<Rightarrow> error + int" where
  "py_int s =
     (let t = rev (dropWhile int_isspace (rev (dropWhile int_isspace s)));
          negative = (t \<noteq> [] \<and> hd t = CHR ''-'');
          body = (if t \<noteq> [] \<and> (hd t = CHR ''-'' \<or> hd t = CHR ''+'') then tl t else t)
      in case digits_of body of
           None \<Rightarrow> Inl ValueError
         | Some ds \<Rightarrow>
             if int_max_str_digits < length ds then Inl ValueError
             else Inr (if negative then - int (dec_value ds) else int (dec_value ds)))"

text \<open>\<open>str(n)\<close> for a natural number: its decimal digits.\<close>

definition digit_char :: "nat \<Rightarrow> char" where
  "digit_char d = ''0123456789'' ! d"

fun str_nat :: "nat \<Rightarrow> string" where
  "str_nat n = (if n < 10 then [digit_char n] else str_nat (n div 10) @ [digit_char (n mod 10)])"

declare str_nat.simps [simp del]

subsection \<open>Alternatives blocks\<close>

text \<open>
  The body of the \<open>try\<close> statement in \<open>EnhancedAgent._parse_alternatives\<close>, and the
  statement with its handler: \<open>ValueError\<close> and \<open>IndexError\<close> are caught and give 5.
\<close>

definition feasibility_of :: "string \<Rightarrow> error + int" where
  "feasibility_of feasibility_text =
     (if py_in ''/'' feasibility_text then
        and_then (py_split ''/'' (- 1) feasibility_text) (\<lambda>parts.
        and_then (py_index parts 0) (\<lambda>numerator. py_int (py_strip numerator)))
      else if py_in ''out of'' feasibility_text then
        and_then (py_split ''out of'' (- 1) feasibility_text) (\<lambda>parts.
        and_then (py_index parts 0) (\<lambda>numerator. py_int (py_strip numerator)))
      else py_int feasibility_text)"

definition parse_feasibility :: "string \<Rightarrow> error + int" where
  "parse_feasibility feasibility_text =
     (case feasibility_of feasibility_text of
        Inl e \<Rightarrow> if e = ValueError \<or> e = IndexError then Inr 5 else Inl e
      | Inr n \<Rightarrow> Inr n)"

text \<open>\<open>line.split(':', 1)[1].strip()\<close>.\<close>

definition field_text :: "string \<Rightarrow> error + string" where
  "field_text line =
     and_then (py_split '':'' 1 line) (\<lambda>parts.
     and_then (py_index parts 1) (\<lambda>v. Inr (py_strip v)))"

text \<open>
  The loop of \<open>_parse_alternatives\<close>. The dictionary \<open>current_alt\<close> is appended to the
  result by reference and may be written to afterwards, so the dictionaries live in a
  heap: \<open>current_alt\<close> and the entries of \<open>alternatives\<close> are positions in it.
\<close>

record alt_state =
  heap :: "pydict list"
  current_alt :: nat
  alternatives :: "nat list"

definition set_item :: "alt_state \<Rightarrow> string \<Rightarrow> pyval \<Rightarrow> alt_state" where
  "set_item st k v =
     st\<lparr>heap := (heap st)[current_alt st := (heap st ! current_alt st)(k \<mapsto> v)]\<rparr>"

definition alternatives_line :: "alt_state \<Rightarrow> string \<Rightarrow> error + alt_state" where
  "alternatives_line st line =
     (if startswith line ''START_ALTERNATIVE'' then
        Inr (st\<lparr>heap := heap st @ [Map.empty], current_alt := length (heap st)\<rparr>)
      else if startswith line ''Approach:'' then
        and_then (field_text line) (\<lambda>v. Inr (set_item st ''approach'' (PStr v)))
      else if startswith line ''Advantages:'' then
        and_then (field_text line) (\<lambda>v. Inr (set_item st ''advantages'' (PStr v)))
      else if startswith line ''Disadvantages:'' then
        and_then (field_text line) (\<lambda>v. Inr (set_item st ''disadvantages'' (PStr v)))
      else if startswith line ''Feasibility:'' then
        and_then (field_text line) (\<lambda>feasibility_text.
        and_then (parse_feasibility feasibility_text) (\<lambda>n.
          Inr (set_item st ''feasibility'' (PInt n))))
      else if startswith line ''END_ALTERNATIVE'' then
        Inr (st\<lparr>alternatives := alternatives st @ [current_alt st]\<rparr>)
      else Inr st)"

fun alternatives_loop :: "string list \<Rightarrow> alt_state \<Rightarrow> error + alt_state" where
  "alternatives_loop [] st = Inr st"
| "alternatives_loop (line # lines) st =
     and_then (alternatives_line st line) (alternatives_loop lines)"

definition parse_alternatives :: "string \<Rightarrow> error + pydict list" where
  "parse_alternatives alternatives_text =
     and_then (py_split [CHR 0x0A] (- 1) alternatives_text) (\<lambda>lines.
     and_then (alternatives_loop lines \<lparr>heap = [Map.empty], current_alt = 0, alternatives = []\<rparr>)
       (\<lambda>st. Inr (map (\<lambda>i. heap st ! i) (alternatives st))))"

text \<open>Two alternatives as a model would write them, the second with a worded score.\<close>

definition sample_alternatives :: string where
  "sample_alternatives =
     ''START_ALTERNATIVE'' @ [CHR 0x0A] @
     ''Approach: buy'' @ [CHR 0x0A] @
     ''Feasibility: 8/10'' @ [CHR 0x0A] @
     ''END_ALTERNATIVE'' @ [CHR 0x0A] @
     ''START_ALTERNATIVE'' @ [CHR 0x0A] @
     ''Approach: wait'' @ [CHR 0x0A] @
     ''Feasibility: high'' @ [CHR 0x0A] @
     ''END_ALTERNATIVE''"

text \<open>
  The positions kept by the loop stay inside the heap, so the final look-up of each
  appended dictionary is a look-up of an allocated one.
\<close>

definition alt_state_ok :: "alt_state \<Rightarrow> bool" where
  "alt_state_ok st =
     (current_alt st < length (heap st) \<and> (\<forall>i\<in>set (alternatives st). i < length (heap st)))"

subsection \<open>Floats in text\<close>

text \<open>
  \<open>float(s)\<close> on a string. The result is a number, an infinity or a NaN; the number is
  the exact value of the decimal text (rounding to a double is not modelled). The text
  is an optional sign followed by \<open>inf\<close>, \<open>infinity\<close> or \<open>nan\<close> in any letter case, or
  by digits with an optional point and an optional exponent, where single underscores
  may separate digits; every failure is a \<open>ValueError\<close>.
\<close>

datatype pyfloat = Finite real | PosInf | NegInf | NaN

text \<open>The text before the first character that satisfies \<open>p\<close>, and the text after it.\<close>

definition split_at :: "(char \<Rightarrow> bool) \<Rightarrow> string \<Rightarrow> string \<times> string option" where
  "split_at p s =
     (takeWhile (\<lambda>c. \<not> p c) s,
      case dropWhile (\<lambda>c. \<not> p c) s of [] \<Rightarrow> None | c # r \<Rightarrow> Some r)"

definition mantissa_digits :: "string \<Rightarrow> string option \<Rightarrow> (nat list \<times> nat list) option" where
  "mantissa_digits ip fp =
     (case fp of
        None \<Rightarrow> map_option (\<lambda>i. (i, [])) (digits_of ip)
      | Some f \<Rightarrow>
          if ip = [] then map_option (\<lambda>d. ([], d)) (digits_of f)
          else if f = [] then map_option (\<lambda>i. (i, [])) (digits_of ip)
          else (case digits_of ip of None \<Rightarrow> None | Some i \<Rightarrow> map_option (Pair i) (digits_of f)))"

definition exponent_of :: "string option \<Rightarrow> int option" where
  "exponent_of expo =
     (case expo of
        None \<Rightarrow> Some 0
      | Some x \<Rightarrow>
          (let negative = (x \<noteq> [] \<and> hd x = CHR ''-'');
               body = (if x \<noteq> [] \<and> (hd x = CHR ''-'' \<or> hd x = CHR ''+'') then tl x else x)
           in map_option (\<lambda>ds. if negative then - int (dec_value ds) else int (dec_value ds))
                (digits_of body)))"

definition scale10 :: "nat \<Rightarrow> int \<Rightarrow> real" where
  "scale10 m e = (if 0 \<le> e then real m * 10 ^ nat e else real m / 10 ^ nat (- e))"

definition float_number :: "string \<Rightarrow> real option" where
  "float_number body =
     (let (mant, expo) = split_at (\<lambda>c. c = CHR ''e'' \<or> c = CHR ''E'') body;
          (ip, fp) = split_at (\<lambda>c. c = CHR ''.'') mant
      in case mantissa_digits ip fp of
           None \<Rightarrow> None
         | Some (i, f) \<Rightarrow>
             (case exponent_of expo of
                None \<Rightarrow> None
              | Some e \<Rightarrow> Some (scale10 (dec_value (i @ f)) (e - int (length f)))))"

definition py_float :: "string \<Rightarrow> error + pyfloat" where
  "py_float s =
     (let t = rev (dropWhile int_isspace (rev (dropWhile int_isspace s)));
          negative = (t \<noteq> [] \<and> hd t = CHR ''-'');
          body = (if t \<noteq> [] \<and> (hd t = CHR ''-'' \<or> hd t = CHR ''+'') then tl t else t)
      in if py_lower body = ''inf'' \<or> py_lower body = ''infinity'' then
           Inr (if negative then NegInf else PosInf)
         else if py_lower body = ''nan'' then Inr NaN
         else case float_number body of
                None \<Rightarrow> Inl ValueError
              | Some r \<Rightarrow> Inr (Finite (if negative then - r else r)))"

subsection \<open>Final decisions and the decision path of the enhanced agent\<close>

text \<open>
  The values that the fields of a decision path hold: the values of \<open>pyval\<close>, a parsed
  float, or a dictionary of such values.
\<close>

datatype dval = DVal pyval | DFloat pyfloat | DDict "(string \<times> dval) list"

type_synonym decision_dict = "string \<rightharpoonup> dval"

text \<open>
  One iteration of the loop of \<open>EnhancedAgent._parse_final_decision\<close>. The handler of the
  \<open>try\<close> statement catches \<open>ValueError\<close> only.
\<close>

definition final_decision_line :: "decision_dict \<Rightarrow> string \<Rightarrow> error + decision_dict" where
  "final_decision_line decision_data line =
     (if startswith line ''Decision:'' then
        and_then (field_text line) (\<lambda>v. Inr (decision_data(''decision'' \<mapsto> DVal (PStr v))))
      else if startswith line ''Confidence:'' then
        (case and_then (field_text line) py_float of
           Inl e \<Rightarrow>
             if e = ValueError then Inr (decision_data(''confidence'' \<mapsto> DFloat (Finite 0)))
             else Inl e
         | Inr x \<Rightarrow> Inr (decision_data(''confidence'' \<mapsto> DFloat x)))
      else if startswith line ''Reasoning:'' then
        and_then (field_text line) (\<lambda>v. Inr (decision_data(''reasoning'' \<mapsto> DVal (PStr v))))
      else Inr decision_data)"

fun final_decision_loop :: "string list \<Rightarrow> decision_dict \<Rightarrow> error + decision_dict" where
  "final_decision_loop [] decision_data = Inr decision_data"
| "final_decision_loop (line # lines) decision_data =
     and_then (final_decision_line decision_data line) (final_decision_loop lines)"

definition parse_final_decision :: "string \<Rightarrow> error + decision_dict" where
  "parse_final_decision decision_text =
     and_then (py_split [CHR 0x0A] (- 1) decision_text) (\<lambda>lines.
       final_decision_loop lines
         [''decision'' \<mapsto> DVal (PStr []), ''confidence'' \<mapsto> DFloat (Finite 0),
          ''reasoning'' \<mapsto> DVal (PStr [])])"

text \<open>\<open>d[k]\<close> on a dictionary.\<close>

definition dict_item :: "decision_dict \<Rightarrow> string \<Rightarrow> error + dval" where
  "dict_item d k = (case d k of None \<Rightarrow> Inl (KeyError k) | Some v \<Rightarrow> Inr v)"

datatype evidence = EvidenceText string | EvidenceDict pydict

record ThoughtStep =
  thought :: string
  reasoning :: string
  confidence :: DecisionConfidence
  supporting_evidence :: "string \<rightharpoonup> evidence"
  alternatives_considered :: "pydict list"

text \<open>The field \<open>context\<close> of the source is \<open>path_context\<close> here.\<close>

record DecisionPath =
  task :: string
  path_context :: pydict
  steps :: "ThoughtStep list"
  final_decision :: "dval option"
  confidence_score :: dval
  reasoning_chain :: "dval option"

text \<open>
  \<open>EnhancedAgent.analyze_task\<close>. The four answers of the language model are inputs: the
  model is outside the program, and \<open>_get_llm_response\<close> turns its failures into text.
\<close>

definition analyze_task ::
  "string \<Rightarrow> pydict \<Rightarrow> string \<Rightarrow> string \<Rightarrow> string \<Rightarrow> string \<Rightarrow> error + DecisionPath" where
  "analyze_task task_text ctx initial_analysis alternatives_text tradeoff_analysis final_text =
     and_then (parse_alternatives alternatives_text) (\<lambda>alts.
     and_then (parse_final_decision final_text) (\<lambda>parsed_decision.
     and_then (dict_item parsed_decision ''decision'') (\<lambda>dec.
     and_then (dict_item parsed_decision ''confidence'') (\<lambda>conf.
     and_then (dict_item parsed_decision ''reasoning'') (\<lambda>reas.
       Inr \<lparr>task = task_text, path_context = ctx,
            steps =
              [\<lparr>thought = ''Initial Problem Analysis'', reasoning = initial_analysis,
                confidence = determine_confidence initial_analysis,
                supporting_evidence = [''context'' \<mapsto> EvidenceDict ctx],
                alternatives_considered = []\<rparr>,
               \<lparr>thought = ''Alternative Solutions'', reasoning = ''Exploring different approaches'',
                confidence = determine_confidence alternatives_text,
                supporting_evidence = [''initial_analysis'' \<mapsto> EvidenceText initial_analysis],
                alternatives_considered = alts\<rparr>,
               \<lparr>thought = ''Trade-off Analysis'', reasoning = tradeoff_analysis,
                confidence = determine_confidence tradeoff_analysis,
                supporting_evidence = [''alternatives'' \<mapsto> EvidenceText alternatives_text],
                alternatives_considered = []\<rparr>],
            final_decision = Some dec,
            confidence_score = conf,
            reasoning_chain =
              Some (DDict [(''initial_analysis'', DVal (PStr initial_analysis)),
                           (''alternatives'', DVal (PStr alternatives_text)),
                           (''tradeoffs'', DVal (PStr tradeoff_analysis)),
                           (''final_reasoning'', reas)])\<rparr>)))))"

text \<open>
  The reading of a final-decision text in the words of the data model: the text of the
  last line that starts with \<open>Confidence:\<close> decides, and a text that is not a float
  counts as 0.
\<close>

definition confidence_lines :: "string \<Rightarrow> string list" where
  "confidence_lines decision_text =
     filter (\<lambda>line. startswith line ''Confidence:'')
       (py_split_loop [CHR 0x0A] (- 1) decision_text)"

definition confidence_value :: "string \<Rightarrow> pyfloat" where
  "confidence_value line =
     (case py_float (py_strip (drop (length ''Confidence:'') line)) of
        Inl e \<Rightarrow> Finite 0
      | Inr x \<Rightarrow> x)"

definition final_confidence :: "string \<Rightarrow> pyfloat" where
  "final_confidence decision_text =
     (if confidence_lines decision_text = [] then Finite 0
      else confidence_value (last (confidence_lines decision_text)))"

fun in_unit_interval :: "pyfloat \<Rightarrow> bool" where
  "in_unit_interval (Finite r) = (0 \<le> r \<and> r \<le> 1)"
| "in_unit_interval PosInf = False"
| "in_unit_interval NegInf = False"
| "in_unit_interval NaN = False"

text \<open>A final-decision block as a model may write it, with a score above 1.\<close>

definition overconfident_decision :: string where
  "overconfident_decision =
     ''START_DECISION'' @ [CHR 0x0A] @
     ''Decision: invest'' @ [CHR 0x0A] @
     ''Confidence: 1.5'' @ [CHR 0x0A] @
     ''Reasoning: strong growth'' @ [CHR 0x0A] @
     ''END_DECISION''"

section \<open>Properties of the session store\<close>

lemma active_simps:
  "active None = False" "active (Some s) = (s \<noteq> [])"
  by (simp_all add: active_def)

text \<open>
  C1. In every observer state without a current session, \<open>track_decision\<close> fails with the
  "no active session" error for any agent, inputs, outputs and metadata, and the state
  after the failing call is the state before it: no session is created and no decision
  record is appended.
\<close>

theorem track_decision_no_session:
  assumes "current_session obs = None"
  shows "track_decision now agent ins outs md obs = (Inl no_active_session, obs)"
  using assms by (simp add: track_decision_def active_simps)

theorem track_decision_no_session_witness:
  "current_session init_observer = None \<and>
   track_decision 7 ''agentA'' Map.empty Map.empty None init_observer
     = (Inl no_active_session, init_observer)"
  using track_decision_no_session [of init_observer 7 "''agentA''" Map.empty Map.empty None]
  by (simp add: init_observer_def)


text \<open>
  C5. For every session identifier that is not a key of the store, \<open>get_session_metrics\<close>
  fails with the "session not found" error, and so returns no metrics of any kind.
\<close>

theorem metrics_unknown_session:
  assumes "observations obs sid = None"
  shows "get_session_metrics now sid obs = Inl (session_not_found sid) \<and>
         (\<forall>m. get_session_metrics now sid obs \<noteq> Inr m)"
  using assms by (simp add: get_session_metrics_def)

theorem metrics_unknown_session_witness:
  "get_session_metrics 9 ''s2'' (snd (session_enter (Some ''s1'') ''u'' 4 init_observer)) =
     Inl (KeyError ''Session s2 not found'')"
  using metrics_unknown_session [of "snd (session_enter (Some ''s1'') ''u'' 4 init_observer)" "''s2''" 9]
  by (simp add: session_enter_def init_observer_def active_simps session_not_found_def Let_def)

text \<open>
  C3. For every stored session whose decision sequence is empty, \<open>get_session_metrics\<close>
  succeeds with decision count 0, the empty set of agents and the averages structure whose
  three fields are 0; only the duration depends on the session.
\<close>

theorem metrics_empty_session:
  assumes "observations obs sid = Some s" and "decisions s = []"
  shows "get_session_metrics now sid obs =
     Inr \<lparr>duration = real_of_int ((case end_time s of None \<Rightarrow> now | Some e \<Rightarrow> e) - start_time s) / 1000000,
          decision_count = 0, agents = {},
          averages = \<lparr>avg_response_time = 0, avg_token_usage = 0, success_rate = 0\<rparr>\<rparr>"
  using assms by (simp add: get_session_metrics_def calculate_averages_def)

theorem metrics_empty_session_witness:
  "get_session_metrics 9 ''s1'' (snd (session_enter (Some ''s1'') ''u'' 4 init_observer)) =
     Inr \<lparr>duration = 5 / 1000000, decision_count = 0, agents = {},
          averages = \<lparr>avg_response_time = 0, avg_token_usage = 0, success_rate = 0\<rparr>\<rparr>"
  using metrics_empty_session [of "snd (session_enter (Some ''s1'') ''u'' 4 init_observer)"
      "''s1''" "new_session 4" 9]
  by (simp add: session_enter_def init_observer_def new_session_def active_simps Let_def)

subsection \<open>Averages\<close>

lemma num_of_typed: "is_number v \<Longrightarrow> num_of v = Some (number_value v)"
  by (cases v) simp_all

lemma truthy_typed: "is_bool v \<Longrightarrow> truthy v = (v = PBool True)"
  by (cases v) simp_all

lemma step_response_time:
  "well_typed_metadata (metadata d) \<Longrightarrow>
   num_of (dict_get (metadata d) ''response_time'' (PInt 0)) = Some (response_time_of d)"
  by (auto simp: well_typed_metadata_def dict_get_def response_time_of_def num_of_typed
           split: option.splits)

lemma step_token_usage:
  "well_typed_metadata (metadata d) \<Longrightarrow>
   num_of (dict_get (metadata d) ''token_usage'' (PInt 0)) = Some (token_usage_of d)"
  by (auto simp: well_typed_metadata_def dict_get_def token_usage_of_def num_of_typed
           split: option.splits)

lemma step_success:
  "well_typed_metadata (metadata d) \<Longrightarrow>
   truthy (dict_get (metadata d) ''success'' (PBool False)) = succeeded d"
  by (auto simp: well_typed_metadata_def dict_get_def succeeded_def truthy_typed
           split: option.splits)

lemma add_totals_typed:
  "\<forall>d\<in>set ds. well_typed_metadata (metadata d) \<Longrightarrow>
   add_totals ds (rt, tu, sr) =
     Inr (rt + sum_list (map response_time_of ds), tu + sum_list (map token_usage_of ds),
          sr + real (length (filter succeeded ds)))"
proof (induction ds arbitrary: rt tu sr)
  case Nil
  then show ?case by simp
next
  case (Cons d ds)
  then have wt: "well_typed_metadata (metadata d)" and rest: "\<forall>d\<in>set ds. well_typed_metadata (metadata d)"
    by simp_all
  show ?case
    by (simp add: step_response_time [OF wt] step_token_usage [OF wt] step_success [OF wt]
          Cons.IH [OF rest] add.assoc)
qed

lemma calculate_averages_typed:
  assumes "ds \<noteq> []" "\<forall>d\<in>set ds. well_typed_metadata (metadata d)"
  shows "calculate_averages ds =
     Inr \<lparr>avg_response_time = mean (map response_time_of ds),
          avg_token_usage = mean (map token_usage_of ds),
          success_rate = 100 * (real (length (filter succeeded ds)) / real (length ds))\<rparr>"
  using assms by (simp add: calculate_averages_def add_totals_typed mean_def Let_def mult.commute)

lemma rate_bounds:
  assumes "ds \<noteq> []"
  shows "0 \<le> 100 * (real (length (filter P ds)) / real (length ds))"
    and "100 * (real (length (filter P ds)) / real (length ds)) \<le> 100"
proof -
  have pos: "0 < real (length ds)" using assms by simp
  have le: "real (length (filter P ds)) \<le> real (length ds)" by simp
  show "0 \<le> 100 * (real (length (filter P ds)) / real (length ds))" by simp
  from le pos have "real (length (filter P ds)) / real (length ds) \<le> 1"
    by (simp add: divide_le_eq_1)
  then show "100 * (real (length (filter P ds)) / real (length ds)) \<le> 100" by simp
qed

text \<open>
  C2, as the code has it. For every stored session with at least one decision record in
  which the recognised metadata keys, where present, have the types of the data model
  (\<open>response_time\<close> and \<open>token_usage\<close> numbers, \<open>success\<close> a boolean),
  \<open>get_session_metrics\<close> succeeds, the two averages are the arithmetic means of the
  response times and of the token usages (a missing value counting as 0), and the success
  rate is 100 times the number of records with \<open>success\<close> true divided by the decision
  count, a value between 0 and 100.
\<close>

theorem session_metrics_averages:
  assumes "observations obs sid = Some s"
    and "decisions s \<noteq> []"
    and "\<forall>d\<in>set (decisions s). well_typed_metadata (metadata d)"
  shows "\<exists>m. get_session_metrics now sid obs = Inr m \<and>
           decision_count m = length (decisions s) \<and>
           avg_response_time (averages m) = mean (map response_time_of (decisions s)) \<and>
           avg_token_usage (averages m) = mean (map token_usage_of (decisions s)) \<and>
           success_rate (averages m) =
             100 * (real (length (filter succeeded (decisions s))) / real (decision_count m)) \<and>
           0 \<le> success_rate (averages m) \<and> success_rate (averages m) \<le> 100"
  using assms rate_bounds [OF assms(2), of succeeded]
  by (simp add: get_session_metrics_def calculate_averages_typed Let_def)

theorem session_metrics_averages_witness:
  "\<exists>m. get_session_metrics 9000000 ''s1'' scenario_observer = Inr m \<and>
       decision_count m = 2 \<and> avg_response_time (averages m) = 2 \<and>
       avg_token_usage (averages m) = 0 \<and> success_rate (averages m) = 50"
proof -
  let ?s = "\<lparr>start_time = 0, end_time = Some 5000000,
          decisions = scenario_decisions,
          metrics = \<lparr>total_tokens = 0, total_time = 0, success_count = 0, failure_count = 0\<rparr>\<rparr>"
  have a: "observations scenario_observer ''s1'' = Some ?s"
    by (simp add: scenario_observer_def)
  have b: "decisions ?s \<noteq> []" by (simp add: scenario_decisions_def)
  have c: "\<forall>d\<in>set (decisions ?s). well_typed_metadata (metadata d)"
    by (simp add: scenario_decisions_def well_typed_metadata_def)
  show ?thesis
    using session_metrics_averages [OF a b c, of 9000000]
    by (auto simp: scenario_decisions_def mean_def response_time_of_def token_usage_of_def
          succeeded_def)
qed

text \<open>
  C2, as the claim states it, fails for metadata that do not follow the data model, which
  the tracker stores without validation. A record whose \<open>success\<close> is the text "no"
  is counted as a success, because the loop tests truthiness: the rate is 100 although no
  record has \<open>success\<close> true, so the claimed rate is 0. A record whose
  \<open>response_time\<close> is a text makes the query raise \<open>TypeError\<close> instead of
  returning averages.
\<close>

theorem session_metrics_untyped_counterexample:
  "map_sum id (\<lambda>m. success_rate (averages m)) (get_session_metrics 9000000 ''s1'' untyped_observer)
     = Inr 100 \<and>
   100 * (real (length (filter succeeded untyped_decisions)) / real (length untyped_decisions)) = 0 \<and>
   get_session_metrics 9000000 ''s2'' untyped_observer = Inl TypeError"
  by (simp add: get_session_metrics_def calculate_averages_def untyped_observer_def
        untyped_decisions_def dict_get_def succeeded_def Let_def)

subsection \<open>Opening and closing sessions\<close>

lemma store_ok_init: "store_ok t init_observer"
  by (simp add: store_ok_def init_observer_def)

lemma closed_in_order_new: "closed_in_order (new_session t)"
  by (simp add: closed_in_order_def new_session_def)

lemma start_time_new: "start_time (new_session t) = t"
  by (simp add: new_session_def)

lemma store_ok_enter:
  assumes "store_ok t obs" and "t \<le> t'" and "uuid \<noteq> []"
  shows "store_ok t' (snd (session_enter session_name uuid t' obs))"
proof -
  have sid: "(if active session_name then the session_name else uuid) \<noteq> []"
    using assms(3) by (cases session_name) (auto simp: active_simps)
  show ?thesis
    using assms(1,2) sid
    by (auto simp: store_ok_def session_enter_def Let_def closed_in_order_new start_time_new
          intro: order_trans)
qed

lemma store_ok_exit:
  assumes "store_ok t obs" and "t \<le> t'"
  shows "store_ok t' (snd (session_exit t' obs))"
proof (cases "current_session obs")
  case None
  with assms show ?thesis
    by (auto simp: store_ok_def session_exit_def active_simps intro: order_trans)
next
  case (Some cur)
  with assms(1) obtain s where cur: "cur \<noteq> []" "observations obs cur = Some s"
    by (auto simp: store_ok_def)
  from assms(1) cur have st: "start_time s \<le> t" by (simp add: store_ok_def)
  with assms(2) have "closed_in_order (s\<lparr>end_time := Some t'\<rparr>)"
    by (simp add: closed_in_order_def)
  with assms Some cur st show ?thesis
    by (auto simp: store_ok_def session_exit_def active_simps Let_def intro: order_trans)
qed

lemma store_ok_track:
  assumes "store_ok t obs" and "t \<le> t'"
  shows "store_ok t' (snd (track_decision t' agent ins outs md obs))"
proof (cases "active (current_session obs)")
  case False
  with assms show ?thesis
    by (auto simp: store_ok_def track_decision_def intro: order_trans)
next
  case True
  then obtain cur where c: "current_session obs = Some cur" "cur \<noteq> []"
    by (cases "current_session obs") (auto simp: active_simps)
  with assms(1) obtain s where s: "observations obs cur = Some s"
    by (auto simp: store_ok_def)
  from assms(1) s have "start_time s \<le> t" "closed_in_order s" by (simp_all add: store_ok_def)
  then have "closed_in_order (s\<lparr>decisions := decisions s @ [d]\<rparr>)" for d
    by (simp add: closed_in_order_def split: option.splits)
  with assms True c s show ?thesis
    by (auto simp: store_ok_def track_decision_def Let_def intro: order_trans)
qed

lemma reachable_store_ok: "reachable t obs \<Longrightarrow> store_ok t obs"
  by (induction rule: reachable.induct)
     (simp_all add: store_ok_init store_ok_enter store_ok_exit store_ok_track)

lemma session_exit_ok:
  assumes "store_ok t obs"
  shows "fst (session_exit t' obs) = Inr () \<and> current_session (snd (session_exit t' obs)) = None"
proof (cases "current_session obs")
  case None
  then show ?thesis by (simp add: session_exit_def active_simps)
next
  case (Some cur)
  with assms obtain s where "cur \<noteq> []" "observations obs cur = Some s"
    by (auto simp: store_ok_def)
  with Some show ?thesis by (simp add: session_exit_def active_simps Let_def)
qed

lemma session_scope:
  assumes "uuid \<noteq> []"
    and "session_enter session_name uuid t0 obs = (sid, obs1)"
    and "body sid obs1 = (r, obs2)"
    and "current_session obs2 = Some sid"
    and "observations obs2 sid = Some s"
  shows "session session_name uuid t0 t1 body obs =
           (r, obs2\<lparr>observations := (observations obs2)(sid \<mapsto> s\<lparr>end_time := Some t1\<rparr>),
                    current_session := None\<rparr>)"
proof -
  have "sid \<noteq> []"
    using assms(1,2)
    by (cases session_name) (auto simp: session_enter_def active_simps Let_def split: if_splits)
  then have "session_exit t1 obs2 =
      (Inr (), obs2\<lparr>observations := (observations obs2)(sid \<mapsto> s\<lparr>end_time := Some t1\<rparr>),
                    current_session := None\<rparr>)"
    using assms(4,5) by (simp add: session_exit_def active_simps Let_def)
  then show ?thesis
    using assms(2,3) by (simp add: session_def)
qed

text \<open>
  C4, as the code has it. A scope whose body leaves the current-session pointer on the
  session that the scope opened records the end timestamp on that session, clears the
  pointer and passes on the outcome of the body, whether the body returned or raised.
  In every state reached through the interface with clock readings that never decrease,
  leaving a scope raises nothing and clears the pointer, and every recorded end timestamp
  is at least the start timestamp of its session.
\<close>

theorem session_scope_closes:
  "(uuid \<noteq> [] \<and> session_enter session_name uuid t0 obs = (sid, obs1) \<and>
    body sid obs1 = (r, obs2) \<and> current_session obs2 = Some sid \<and>
    observations obs2 sid = Some s \<longrightarrow>
      session session_name uuid t0 t1 body obs =
        (r, obs2\<lparr>observations := (observations obs2)(sid \<mapsto> s\<lparr>end_time := Some t1\<rparr>),
                 current_session := None\<rparr>)) \<and>
   (reachable t st \<longrightarrow>
      fst (session_exit t' st) = Inr () \<and>
      current_session (snd (session_exit t' st)) = None \<and>
      (\<forall>k s' e. observations st k = Some s' \<and> end_time s' = Some e \<longrightarrow> start_time s' \<le> e))"
proof (intro conjI impI)
  assume "uuid \<noteq> [] \<and> session_enter session_name uuid t0 obs = (sid, obs1) \<and>
    body sid obs1 = (r, obs2) \<and> current_session obs2 = Some sid \<and>
    observations obs2 sid = Some s"
  then show "session session_name uuid t0 t1 body obs =
        (r, obs2\<lparr>observations := (observations obs2)(sid \<mapsto> s\<lparr>end_time := Some t1\<rparr>),
                 current_session := None\<rparr>)"
    using session_scope [of uuid session_name t0 obs sid obs1 body r obs2 s t1] by blast
next
  assume "reachable t st"
  then have ok: "store_ok t st" by (rule reachable_store_ok)
  from session_exit_ok [OF ok, of t'] show "fst (session_exit t' st) = Inr ()" by simp
  from session_exit_ok [OF ok, of t']
  show "current_session (snd (session_exit t' st)) = None" by simp
  from ok show "\<forall>k s' e. observations st k = Some s' \<and> end_time s' = Some e \<longrightarrow> start_time s' \<le> e"
    by (auto simp: store_ok_def closed_in_order_def split: option.splits)
qed

theorem session_scope_closes_witness:
  "fst (session (Some ''s1'') ''u'' 1 5 failing_body init_observer) = Inl (RuntimeError ''agent failed'') \<and>
   current_session (snd (session (Some ''s1'') ''u'' 1 5 failing_body init_observer)) = None \<and>
   map_option end_time
     (observations (snd (session (Some ''s1'') ''u'' 1 5 failing_body init_observer)) ''s1'') = Some (Some 5) \<and>
   fst (session_exit 7 (snd (session_exit 5 (snd (session_enter (Some ''s1'') ''u'' 1 init_observer))))) = Inr () \<and>
   start_time (new_session 1\<lparr>end_time := Some 5\<rparr>) \<le> 5"
proof -
  let ?obs1 = "snd (session_enter (Some ''s1'') ''u'' 1 init_observer)"
  let ?obs2 = "snd (failing_body ''s1'' ?obs1)"
  let ?d = "\<lparr>timestamp = 2, agent_id = ''agentA'', inputs = Map.empty, outputs = Map.empty,
             metadata = Map.empty\<rparr>"
  let ?s = "(new_session 1)\<lparr>decisions := [?d]\<rparr>"
  let ?st = "snd (session_exit 5 ?obs1)"
  have h: "''u'' \<noteq> [] \<and>
     session_enter (Some ''s1'') ''u'' 1 init_observer = (''s1'', ?obs1) \<and>
     failing_body ''s1'' ?obs1 = (Inl (RuntimeError ''agent failed''), ?obs2) \<and>
     current_session ?obs2 = Some ''s1'' \<and>
     observations ?obs2 ''s1'' = Some ?s"
    by (simp add: session_enter_def failing_body_def track_decision_def init_observer_def
          active_simps Let_def new_session_def)
  have r0: "reachable 0 init_observer" by (rule reach_init)
  have r1: "reachable 1 ?obs1"
    by (rule reach_enter [OF r0]) simp_all
  have r2: "reachable 5 ?st"
    by (rule reach_exit [OF r1]) simp
  have k: "observations ?st ''s1'' = Some (new_session 1\<lparr>end_time := Some 5\<rparr>) \<and>
           end_time (new_session 1\<lparr>end_time := Some 5\<rparr>) = Some 5"
    by (simp add: session_enter_def session_exit_def init_observer_def active_simps Let_def)
  note a = session_scope_closes [where body = failing_body and uuid = "''u''"
      and session_name = "Some ''s1''" and ?t0.0 = 1 and obs = init_observer and sid = "''s1''"
      and ?obs1.0 = ?obs1 and r = "Inl (RuntimeError ''agent failed'')" and ?obs2.0 = ?obs2
      and s = ?s and ?t1.0 = 5, THEN conjunct1, rule_format, OF h]
  note b = session_scope_closes [where t = 5 and st = ?st and t' = 7, THEN conjunct2, rule_format,
      OF r2]
  from a have "fst (session (Some ''s1'') ''u'' 1 5 failing_body init_observer) = Inl (RuntimeError ''agent failed'')"
    and "current_session (snd (session (Some ''s1'') ''u'' 1 5 failing_body init_observer)) = None"
    and "map_option end_time
     (observations (snd (session (Some ''s1'') ''u'' 1 5 failing_body init_observer)) ''s1'') = Some (Some 5)"
    by simp_all
  moreover from b have "fst (session_exit 7 ?st) = Inr ()" by simp
  moreover from b k have "start_time (new_session 1\<lparr>end_time := Some 5\<rparr>) \<le> 5" by blast
  ultimately show ?thesis by blast
qed

text \<open>
  C4, as the claim states it, fails for a scope opened inside another one: the inner
  \<open>finally\<close> block clears the pointer, the outer one then finds no current session, and
  the outer session is left without an end timestamp after both scopes have been left.
\<close>

theorem session_nested_counterexample:
  "fst nested_scopes = Inr () \<and>
   observations (snd nested_scopes) ''outer'' = Some (new_session 0) \<and>
   end_time (new_session 0) = None"
  by (simp add: nested_scopes_def session_def session_enter_def session_exit_def
        init_observer_def active_simps Let_def new_session_def)

text \<open>
  C10. For every store and every non-empty name that is already a key of it, entering a
  scope with that name raises nothing, returns the name, makes it current and overwrites
  the stored session with a fresh one: start timestamp now, no end timestamp, no decision
  records. The records stored under the name before are gone, so the metrics of the name
  count no decision.
\<close>

theorem session_enter_existing_name:
  assumes "observations obs n = Some old" and "n \<noteq> []"
  shows "session_enter (Some n) uuid now obs =
           (n, obs\<lparr>current_session := Some n,
                   observations := (observations obs)(n \<mapsto>
                     \<lparr>start_time = now, end_time = None, decisions = [],
                      metrics = \<lparr>total_tokens = 0, total_time = 0, success_count = 0,
                                 failure_count = 0\<rparr>\<rparr>)\<rparr>) \<and>
         get_session_metrics later n (snd (session_enter (Some n) uuid now obs)) =
           Inr \<lparr>duration = real_of_int (later - now) / 1000000, decision_count = 0, agents = {},
                averages = \<lparr>avg_response_time = 0, avg_token_usage = 0, success_rate = 0\<rparr>\<rparr>"
  using assms
  by (simp add: session_enter_def active_simps new_session_def get_session_metrics_def
        calculate_averages_def)

theorem session_enter_existing_name_witness:
  "observations (snd (track_decision 2 ''agentA'' Map.empty Map.empty None
       (snd (session_enter (Some ''s1'') ''u'' 1 init_observer)))) ''s1''
     = Some ((new_session 1)\<lparr>decisions :=
         [\<lparr>timestamp = 2, agent_id = ''agentA'', inputs = Map.empty, outputs = Map.empty,
           metadata = Map.empty\<rparr>]\<rparr>) \<and>
   observations (snd (session_enter (Some ''s1'') ''v'' 9
       (snd (track_decision 2 ''agentA'' Map.empty Map.empty None
         (snd (session_enter (Some ''s1'') ''u'' 1 init_observer)))))) ''s1''
     = Some (new_session 9)"
proof -
  let ?obs = "snd (track_decision 2 ''agentA'' Map.empty Map.empty None
       (snd (session_enter (Some ''s1'') ''u'' 1 init_observer)))"
  let ?old = "(new_session 1)\<lparr>decisions :=
         [\<lparr>timestamp = 2, agent_id = ''agentA'', inputs = Map.empty, outputs = Map.empty,
           metadata = Map.empty\<rparr>]\<rparr>"
  have h1: "observations ?obs ''s1'' = Some ?old"
    by (simp add: session_enter_def track_decision_def init_observer_def
          active_simps Let_def new_session_def)
  have h2: "''s1'' \<noteq> []" by simp
  from session_enter_existing_name [OF h1 h2, of "''v''" 9] h1
  show ?thesis by (simp add: new_session_def)
qed

section \<open>Properties of the adapters\<close>

subsection \<open>Confidence levels\<close>

text \<open>
  C6. For every numeric confidence \<open>c\<close>, the threshold mapping of the swarm adapter gives
  LOW when \<open>c\<close> is below 0.4, MEDIUM when \<open>c\<close> is at least 0.4 and below 0.7, and HIGH
  when \<open>c\<close> is at least 0.7; so 0.3 is LOW, 0.5 is MEDIUM, 0.8 is HIGH, and the two
  boundaries belong to the upper level: 0.4 is MEDIUM and 0.7 is HIGH.
\<close>

theorem convert_swarm_confidence_thresholds:
  "(c < 0.4 \<longrightarrow> convert_swarm_confidence c = LOW) \<and>
   (0.4 \<le> c \<and> c < 0.7 \<longrightarrow> convert_swarm_confidence c = MEDIUM) \<and>
   (0.7 \<le> c \<longrightarrow> convert_swarm_confidence c = HIGH) \<and>
   convert_swarm_confidence 0.3 = LOW \<and>
   convert_swarm_confidence 0.5 = MEDIUM \<and>
   convert_swarm_confidence 0.8 = HIGH \<and>
   convert_swarm_confidence 0.4 = MEDIUM \<and>
   convert_swarm_confidence 0.7 = HIGH"
  by (simp add: convert_swarm_confidence_def)

theorem convert_swarm_confidence_thresholds_witness:
  "convert_swarm_confidence 0.39 = LOW \<and>
   convert_swarm_confidence 0.69 = MEDIUM \<and>
   convert_swarm_confidence 1 = HIGH"
proof -
  have "convert_swarm_confidence 0.39 = LOW"
    using convert_swarm_confidence_thresholds [of "0.39"] by simp
  moreover have "convert_swarm_confidence 0.69 = MEDIUM"
    using convert_swarm_confidence_thresholds [of "0.69"] by simp
  moreover have "convert_swarm_confidence 1 = HIGH"
    using convert_swarm_confidence_thresholds [of 1] by simp
  ultimately show ?thesis by simp
qed

lemma startswith_append: "startswith (sub @ suf) sub"
  by (induction sub) simp_all

lemma startswith_iff: "startswith s sub \<longleftrightarrow> (\<exists>suf. s = sub @ suf)"
proof (induction s sub rule: startswith.induct)
  case (1 s)
  then show ?case by simp
next
  case (2 p ps)
  then show ?case by simp
next
  case (3 c cs p ps)
  then show ?case by auto
qed

lemma py_find_occurs: "py_find sub (pre @ sub @ suf) \<noteq> None"
proof (induction pre)
  case Nil
  then show ?case
    by (cases "sub @ suf") (auto simp: startswith_append dest: sym)
next
  case (Cons c pre)
  then show ?case by auto
qed

lemma py_find_Some:
  "py_find sub s = Some i \<Longrightarrow> s = take i s @ sub @ drop (i + length sub) s"
proof (induction s arbitrary: i)
  case Nil
  then show ?case by (simp split: if_splits)
next
  case (Cons c cs)
  show ?case
  proof (cases "startswith (c # cs) sub")
    case True
    with Cons.prems have "i = 0" by simp
    moreover from True obtain suf where "c # cs = sub @ suf"
      by (auto simp: startswith_iff)
    ultimately show ?thesis by simp
  next
    case False
    with Cons.prems obtain j where j: "py_find sub cs = Some j" "i = Suc j" by auto
    from Cons.IH [OF j(1)] j(2) show ?thesis by simp
  qed
qed

lemma py_in_iff: "py_in sub s \<longleftrightarrow> (\<exists>pre suf. s = pre @ sub @ suf)"
proof
  assume "py_in sub s"
  then obtain i where "py_find sub s = Some i" by (auto simp: py_in_def)
  from py_find_Some [OF this] show "\<exists>pre suf. s = pre @ sub @ suf" by blast
next
  assume "\<exists>pre suf. s = pre @ sub @ suf"
  then obtain pre suf where "s = pre @ sub @ suf" by blast
  with py_find_occurs [of sub pre suf] show "py_in sub s" by (simp add: py_in_def)
qed

text \<open>
  C8, as the code has it. The classifier of the enhanced agent looks at the text in lower
  case: it returns LOW when the text contains "uncertain" or "unclear" anywhere; failing
  that, MEDIUM when it contains "likely" or "probably"; and HIGH, its default, when it
  contains none of the four words. The classifier of the generic adapter reads the
  \<open>confidence\<close> entry of a step instead and defaults to MEDIUM when the entry is missing
  or is a text other than one of the three level names in any letter case.
\<close>

theorem determine_confidence_levels:
  "(py_lower text = pre @ ''uncertain'' @ suf \<or> py_lower text = pre @ ''unclear'' @ suf
      \<longrightarrow> determine_confidence text = LOW) \<and>
   (\<not> py_in ''uncertain'' (py_lower text) \<and> \<not> py_in ''unclear'' (py_lower text) \<and>
    (py_lower text = pre @ ''likely'' @ suf \<or> py_lower text = pre @ ''probably'' @ suf)
      \<longrightarrow> determine_confidence text = MEDIUM) \<and>
   (\<not> py_in ''uncertain'' (py_lower text) \<and> \<not> py_in ''unclear'' (py_lower text) \<and>
    \<not> py_in ''likely'' (py_lower text) \<and> \<not> py_in ''probably'' (py_lower text)
      \<longrightarrow> determine_confidence text = HIGH) \<and>
   (step ''confidence'' = None \<longrightarrow> generic_determine_confidence step = Inr ''MEDIUM'') \<and>
   (step ''confidence'' = Some (PStr s) \<and> py_upper s \<notin> {''LOW'', ''MEDIUM'', ''HIGH''}
      \<longrightarrow> generic_determine_confidence step = Inr ''MEDIUM'') \<and>
   (step ''confidence'' = Some (PStr s) \<and> py_upper s \<in> {''LOW'', ''MEDIUM'', ''HIGH''}
      \<longrightarrow> generic_determine_confidence step = Inr (py_upper s))"
proof -
  have low: "py_lower text = pre @ w @ suf \<Longrightarrow> py_in w (py_lower text)" for w
    by (auto simp: py_in_iff)
  have generic_none:
    "step ''confidence'' = None \<Longrightarrow> generic_determine_confidence step = Inr ''MEDIUM''"
    by (simp add: generic_determine_confidence_def dict_get_def py_upper_def)
  have generic_str:
    "step ''confidence'' = Some (PStr s) \<Longrightarrow>
     generic_determine_confidence step =
       Inr (if py_upper s \<in> {''LOW'', ''MEDIUM'', ''HIGH''} then py_upper s else ''MEDIUM'')"
    by (simp add: generic_determine_confidence_def dict_get_def Let_def)
  show ?thesis
    using low [of "''uncertain''"] low [of "''unclear''"] low [of "''likely''"]
      low [of "''probably''"] generic_none generic_str
    by (auto simp: determine_confidence_def)
qed

theorem determine_confidence_levels_witness:
  "determine_confidence ''Demand is UNCLEAR'' = LOW \<and>
   determine_confidence ''Growth is likely'' = MEDIUM \<and>
   determine_confidence ''Growth is strong'' = HIGH \<and>
   generic_determine_confidence Map.empty = Inr ''MEDIUM'' \<and>
   generic_determine_confidence [''confidence'' \<mapsto> PStr ''sure''] = Inr ''MEDIUM'' \<and>
   generic_determine_confidence [''confidence'' \<mapsto> PStr ''high''] = Inr ''HIGH''"
proof -
  note lc = py_lower_def lower_char_def py_upper_def upper_char_def py_in_def
  have "determine_confidence ''Demand is UNCLEAR'' = LOW"
    using determine_confidence_levels [of "''Demand is UNCLEAR''" "''demand is ''" "[]"]
    by (simp add: lc)
  moreover have "determine_confidence ''Growth is likely'' = MEDIUM"
    using determine_confidence_levels [of "''Growth is likely''" "''growth is ''" "[]"]
    by (simp add: lc)
  moreover have "determine_confidence ''Growth is strong'' = HIGH"
    using determine_confidence_levels [of "''Growth is strong''"]
    by (simp add: lc)
  moreover have "generic_determine_confidence Map.empty = Inr ''MEDIUM''"
    using determine_confidence_levels [where step = Map.empty] by simp
  moreover have "generic_determine_confidence [''confidence'' \<mapsto> PStr ''sure''] = Inr ''MEDIUM''"
    using determine_confidence_levels [where step = "[''confidence'' \<mapsto> PStr ''sure'']"
        and s = "''sure''"]
    by (simp add: lc)
  moreover have "generic_determine_confidence [''confidence'' \<mapsto> PStr ''high''] = Inr ''HIGH''"
    using determine_confidence_levels [where step = "[''confidence'' \<mapsto> PStr ''high'']"
        and s = "''high''"]
    by (simp add: lc)
  ultimately show ?thesis by simp
qed

text \<open>
  C8, as the claim states it, fails: a text without any hedging word is classified HIGH,
  so MEDIUM is not the default of the lexical classifier, and a text that contains
  "likely" and no hedging word is classified MEDIUM, not HIGH.
\<close>

theorem determine_confidence_counterexample:
  "\<not> py_in ''uncertain'' (py_lower ''Growth is strong'') \<and>
   \<not> py_in ''unclear'' (py_lower ''Growth is strong'') \<and>
   determine_confidence ''Growth is strong'' \<noteq> MEDIUM \<and>
   \<not> py_in ''uncertain'' (py_lower ''Growth is likely'') \<and>
   \<not> py_in ''unclear'' (py_lower ''Growth is likely'') \<and>
   determine_confidence ''Growth is likely'' \<noteq> HIGH"
  by (simp add: determine_confidence_def py_in_def py_lower_def lower_char_def)

subsection \<open>Alternatives blocks\<close>

lemma py_in_char: "py_in [c] s \<longleftrightarrow> c \<in> set s"
  by (auto simp: py_in_iff in_set_conv_decomp)

lemma py_find_first:
  assumes "sub \<noteq> []" and "hd sub \<notin> set pre"
  shows "py_find sub (pre @ sub @ rest) = Some (length pre)"
  using assms(2)
proof (induction pre)
  case Nil
  from assms(1) obtain p ps where "sub = p # ps" by (cases sub) auto
  with startswith_append [of sub rest] show ?case by simp
next
  case (Cons c pre)
  from assms(1) obtain p ps where sub: "sub = p # ps" by (cases sub) auto
  with Cons.prems have "c \<noteq> p" by auto
  with Cons sub show ?case by simp
qed

lemma py_split_first:
  assumes "sub \<noteq> []" and "hd sub \<notin> set pre" and "maxsplit \<noteq> 0"
  shows "py_split sub maxsplit (pre @ sub @ rest) =
           Inr (pre # py_split_loop sub (maxsplit - 1) rest)"
  using assms py_find_first [OF assms(1,2), of rest]
  by (simp add: py_split_def py_split_loop.simps [of sub maxsplit "pre @ sub @ rest"])

lemma py_split_loop_zero: "py_split_loop sep 0 s = [s]"
  by (simp add: py_split_loop.simps [of sep 0 s])

lemma py_split_no_error: "sep \<noteq> [] \<Longrightarrow> \<exists>p ps. py_split sep maxsplit s = Inr (p # ps)"
  by (simp add: py_split_def py_split_loop.simps [of sep maxsplit s] split: option.splits)

lemma field_text_prefixed:
  assumes "CHR '':'' \<notin> set key"
  shows "field_text (key @ '':'' @ v) = Inr (py_strip v)"
proof -
  have "py_split '':'' 1 (key @ '':'' @ v) = Inr (key # py_split_loop '':'' (1 - 1) v)"
    using assms by (intro py_split_first) simp_all
  then show ?thesis
    by (simp add: field_text_def and_then_def py_index_def py_split_loop_zero)
qed

lemma strip_around:
  assumes "\<forall>c\<in>set ws1. P c" and "\<forall>c\<in>set ws2. P c"
    and "s \<noteq> []" and "\<not> P (hd s)" and "\<not> P (last s)"
  shows "rev (dropWhile P (rev (dropWhile P (ws1 @ s @ ws2)))) = s"
proof -
  from assms(3) obtain c cs where s: "s = c # cs" by (cases s) auto
  have "\<And>x. x \<in> set ws1 \<Longrightarrow> P x" using assms(1) by simp
  then have "dropWhile P (ws1 @ s @ ws2) = dropWhile P (s @ ws2)"
    by (rule dropWhile_append2)
  also from s assms(4) have "\<dots> = s @ ws2" by simp
  finally have a: "dropWhile P (ws1 @ s @ ws2) = s @ ws2" .
  have "hd (rev s) = last s" by (simp add: hd_rev)
  with assms(3) obtain bs b where r: "rev s = b # bs" "b = last s"
    by (cases "rev s") auto
  have "\<And>x. x \<in> set (rev ws2) \<Longrightarrow> P x" using assms(2) by simp
  then have "dropWhile P (rev ws2 @ rev s) = dropWhile P (rev s)"
    by (rule dropWhile_append2)
  also have "\<dots> = rev s" unfolding r(1) using r(2) assms(5) by simp
  finally show ?thesis using a by simp
qed

lemma digit_value_digit_char: "d < 10 \<Longrightarrow> digit_value (digit_char d) = Some d"
proof -
  assume "d < 10"
  then have "d \<in> {0, 1, 2, 3, 4, 5, 6, 7, 8, 9}" by auto
  then show ?thesis by (auto simp: digit_value_def digit_char_def)
qed

lemma digit_valueD: "digit_value c = Some d \<Longrightarrow> c \<in> set ''0123456789''"
  unfolding digit_value_def by (drule map_of_SomeD) (auto dest: set_zip_leftD)

lemma digit_not_special:
  assumes "digit_value c = Some d"
  shows "\<not> py_isspace c" "\<not> int_isspace c" "c \<noteq> CHR ''_''" "c \<noteq> CHR ''/''" "c \<noteq> CHR ''o''"
    "c \<noteq> CHR ''+''" "c \<noteq> CHR ''-''"
  using digit_valueD [OF assms] by (auto simp: py_isspace_def int_isspace_def)

lemma digits_of_all:
  assumes "s \<noteq> []" and "\<forall>c\<in>set s. digit_value c \<noteq> None"
  shows "digits_of s = Some (map (the \<circ> digit_value) s)"
  using assms
proof (induction s)
  case Nil
  then show ?case by simp
next
  case (Cons c cs)
  then obtain d where d: "digit_value c = Some d" by auto
  show ?case
  proof (cases "cs = []")
    case True
    with d show ?thesis by simp
  next
    case False
    with Cons.prems obtain e where "digit_value (hd cs) = Some e" by (cases cs) auto
    then have "hd cs \<noteq> CHR ''_''" by (rule digit_not_special)
    with False d Cons show ?thesis by simp
  qed
qed

lemma str_nat_digits: "str_nat n \<noteq> [] \<and> (\<forall>c\<in>set (str_nat n). digit_value c \<noteq> None)"
proof (induction n rule: str_nat.induct)
  case (1 n)
  show ?case
  proof (cases "n < 10")
    case True
    then show ?thesis by (simp add: str_nat.simps [of n] digit_value_digit_char)
  next
    case False
    with 1 show ?thesis by (simp add: str_nat.simps [of n] digit_value_digit_char)
  qed
qed

lemma dec_value_snoc: "dec_value (ds @ [d]) = 10 * dec_value ds + d"
  by (simp add: dec_value_def)

lemma dec_value_str_nat: "dec_value (map (the \<circ> digit_value) (str_nat n)) = n"
proof (induction n rule: str_nat.induct)
  case (1 n)
  show ?case
  proof (cases "n < 10")
    case True
    then show ?thesis
      by (simp add: str_nat.simps [of n] digit_value_digit_char dec_value_def)
  next
    case False
    with 1 show ?thesis
      by (simp add: str_nat.simps [of n] digit_value_digit_char dec_value_snoc)
  qed
qed

lemma str_nat_ends:
  obtains d e where "digit_value (hd (str_nat n)) = Some d" "digit_value (last (str_nat n)) = Some e"
proof -
  from str_nat_digits [of n] have "hd (str_nat n) \<in> set (str_nat n)" "last (str_nat n) \<in> set (str_nat n)"
    by simp_all
  with str_nat_digits [of n] that show thesis by blast
qed

lemma py_int_str_nat:
  assumes "length (str_nat n) \<le> int_max_str_digits"
  shows "py_int (str_nat n) = Inr (int n)"
proof -
  obtain d e where de: "digit_value (hd (str_nat n)) = Some d" "digit_value (last (str_nat n)) = Some e"
    by (rule str_nat_ends)
  have ne: "str_nat n \<noteq> []" using str_nat_digits by simp
  have "rev (dropWhile int_isspace (rev (dropWhile int_isspace ([] @ str_nat n @ [])))) = str_nat n"
    using ne digit_not_special(2) [OF de(1)] digit_not_special(2) [OF de(2)]
    by (intro strip_around) simp_all
  then have t: "rev (dropWhile int_isspace (rev (dropWhile int_isspace (str_nat n)))) = str_nat n"
    by simp
  have ds: "digits_of (str_nat n) = Some (map (the \<circ> digit_value) (str_nat n))"
    using str_nat_digits by (intro digits_of_all) simp_all
  show ?thesis
    using assms digit_not_special(6,7) [OF de(1)]
    by (simp add: py_int_def t ds dec_value_str_nat Let_def)
qed

lemma py_strip_numerator:
  assumes "\<forall>c\<in>set ws. py_isspace c"
  shows "py_strip (str_nat n @ ws) = str_nat n"
proof -
  obtain d e where de: "digit_value (hd (str_nat n)) = Some d" "digit_value (last (str_nat n)) = Some e"
    by (rule str_nat_ends)
  have ne: "str_nat n \<noteq> []" using str_nat_digits by simp
  have "rev (dropWhile py_isspace (rev (dropWhile py_isspace ([] @ str_nat n @ ws)))) = str_nat n"
    using ne assms digit_not_special(1) [OF de(1)] digit_not_special(1) [OF de(2)]
    by (intro strip_around) simp_all
  then show ?thesis by (simp add: py_strip_def)
qed

lemma digit_string_free:
  assumes "\<forall>c\<in>set s. digit_value c \<noteq> None" and "digit_value x = None"
  shows "x \<notin> set s"
proof
  assume "x \<in> set s"
  with assms(1) have "digit_value x \<noteq> None" by (rule bspec)
  with assms(2) show False by simp
qed

lemma space_string_free:
  assumes "\<forall>c\<in>set ws. py_isspace c" and "\<not> py_isspace x"
  shows "x \<notin> set ws"
proof
  assume "x \<in> set ws"
  with assms(1) have "py_isspace x" by (rule bspec)
  with assms(2) show False by simp
qed

lemma numerator_free:
  assumes "\<forall>c\<in>set ws. py_isspace c"
  shows "CHR ''/'' \<notin> set (str_nat n @ ws)" "CHR ''o'' \<notin> set (str_nat n @ ws)"
proof -
  have d: "\<forall>c\<in>set (str_nat n). digit_value c \<noteq> None" using str_nat_digits [of n] by simp
  have "CHR ''/'' \<notin> set (str_nat n)"
    by (rule digit_string_free [OF d]) (simp add: digit_value_def)
  moreover have "CHR ''/'' \<notin> set ws"
    by (rule space_string_free [OF assms]) (simp add: py_isspace_def)
  ultimately show "CHR ''/'' \<notin> set (str_nat n @ ws)" by simp
  have "CHR ''o'' \<notin> set (str_nat n)"
    by (rule digit_string_free [OF d]) (simp add: digit_value_def)
  moreover have "CHR ''o'' \<notin> set ws"
    by (rule space_string_free [OF assms]) (simp add: py_isspace_def)
  ultimately show "CHR ''o'' \<notin> set (str_nat n @ ws)" by simp
qed

lemma parse_feasibility_slash:
  assumes "length (str_nat n) \<le> int_max_str_digits" and "\<forall>c\<in>set ws. py_isspace c"
  shows "parse_feasibility (str_nat n @ ws @ ''/'' @ rest) = Inr (int n)"
proof -
  let ?t = "str_nat n @ ws @ ''/'' @ rest"
  have "py_in ''/'' ?t" by (simp add: py_in_char)
  moreover have "py_split ''/'' (- 1) ((str_nat n @ ws) @ ''/'' @ rest) =
      Inr ((str_nat n @ ws) # py_split_loop ''/'' (- 1 - 1) rest)"
    using numerator_free(1) [OF assms(2), of n] by (intro py_split_first) simp_all
  ultimately show ?thesis
    using py_strip_numerator [OF assms(2), of n] py_int_str_nat [OF assms(1)]
    by (simp add: parse_feasibility_def feasibility_of_def and_then_def py_index_def)
qed

lemma parse_feasibility_out_of:
  assumes "length (str_nat n) \<le> int_max_str_digits" and "\<forall>c\<in>set ws. py_isspace c"
    and "CHR ''/'' \<notin> set rest"
  shows "parse_feasibility (str_nat n @ ws @ ''out of'' @ rest) = Inr (int n)"
proof -
  let ?t = "str_nat n @ ws @ ''out of'' @ rest"
  have "\<not> py_in ''/'' ?t"
    using numerator_free(1) [OF assms(2), of n] assms(3) by (simp add: py_in_char)
  moreover have "py_in ''out of'' ?t"
    unfolding py_in_iff by (rule exI [of _ "str_nat n @ ws"], rule exI [of _ rest]) simp
  moreover have "py_split ''out of'' (- 1) ((str_nat n @ ws) @ ''out of'' @ rest) =
      Inr ((str_nat n @ ws) # py_split_loop ''out of'' (- 1 - 1) rest)"
    using numerator_free(2) [OF assms(2), of n] by (intro py_split_first) simp_all
  ultimately show ?thesis
    using py_strip_numerator [OF assms(2), of n] py_int_str_nat [OF assms(1)]
    by (simp add: parse_feasibility_def feasibility_of_def and_then_def py_index_def)
qed

lemma py_int_error: "py_int s = Inl e \<Longrightarrow> e = ValueError"
  by (auto simp: py_int_def Let_def split: option.splits if_splits)

lemma feasibility_of_error:
  assumes "feasibility_of t = Inl e"
  shows "e = ValueError \<or> e = IndexError"
proof -
  have split_ok: "\<exists>p ps. py_split sep (- 1) t = Inr (p # ps)" if "sep \<noteq> []" for sep
    using that by (rule py_split_no_error)
  from split_ok [of "''/''"] obtain p ps where a: "py_split ''/'' (- 1) t = Inr (p # ps)" by auto
  from split_ok [of "''out of''"] obtain q qs where b: "py_split ''out of'' (- 1) t = Inr (q # qs)"
    by auto
  from assms show ?thesis
    by (auto simp: feasibility_of_def and_then_def py_index_def a b
          dest: py_int_error split: if_splits)
qed

lemma parse_feasibility_total: "\<exists>n. parse_feasibility t = Inr n"
proof (cases "feasibility_of t")
  case (Inl e)
  with feasibility_of_error [OF Inl] show ?thesis by (auto simp: parse_feasibility_def)
next
  case (Inr n)
  then show ?thesis by (simp add: parse_feasibility_def)
qed

lemma parse_feasibility_fallback:
  "feasibility_of t = Inl e \<Longrightarrow> parse_feasibility t = Inr 5"
  using feasibility_of_error [of t e] by (auto simp: parse_feasibility_def)

lemma field_text_key:
  assumes "startswith line (key @ '':'')" and "CHR '':'' \<notin> set key"
  shows "\<exists>v. field_text line = Inr v"
proof -
  from assms(1) obtain suf where "line = key @ '':'' @ suf" by (auto simp: startswith_iff)
  with field_text_prefixed [OF assms(2), of suf] show ?thesis by simp
qed

lemma alternatives_line_total: "\<exists>st'. alternatives_line st line = Inr st'"
proof -
  have f: "startswith line (key @ '':'') \<Longrightarrow> CHR '':'' \<notin> set key \<Longrightarrow> \<exists>v. field_text line = Inr v"
    for key by (rule field_text_key)
  note f1 = f [of "''Approach''", simplified] and f2 = f [of "''Advantages''", simplified]
    and f3 = f [of "''Disadvantages''", simplified] and f4 = f [of "''Feasibility''", simplified]
  show ?thesis
    unfolding alternatives_line_def
    using f1 f2 f3 f4 parse_feasibility_total
    by (auto simp: and_then_def split: sum.splits) (metis sum.distinct(1))+
qed

lemma alternatives_loop_total: "\<exists>st'. alternatives_loop lines st = Inr st'"
proof (induction lines arbitrary: st)
  case Nil
  then show ?case by simp
next
  case (Cons line lines)
  obtain st1 where "alternatives_line st line = Inr st1"
    using alternatives_line_total by blast
  with Cons [of st1] show ?case by (simp add: and_then_def)
qed

lemma parse_alternatives_total: "\<exists>alts. parse_alternatives t = Inr alts"
proof -
  obtain p ps where "py_split [CHR 0x0A] (- 1) t = Inr (p # ps)"
    using py_split_no_error [of "[CHR 0x0A]" "- 1" t] by auto
  moreover obtain st' where
    "alternatives_loop (p # ps) \<lparr>heap = [Map.empty], current_alt = 0, alternatives = []\<rparr> = Inr st'"
    using alternatives_loop_total by blast
  ultimately show ?thesis by (simp add: parse_alternatives_def and_then_def)
qed

lemma feasibility_line:
  "\<exists>n. parse_feasibility (py_strip v) = Inr n \<and>
       alternatives_line st (''Feasibility:'' @ v) = Inr (set_item st ''feasibility'' (PInt n))"
proof -
  obtain n where n: "parse_feasibility (py_strip v) = Inr n"
    using parse_feasibility_total by blast
  have "field_text (''Feasibility'' @ '':'' @ v) = Inr (py_strip v)"
    by (rule field_text_prefixed) simp
  then have "field_text (''Feasibility:'' @ v) = Inr (py_strip v)" by simp
  with n have "alternatives_line st (''Feasibility:'' @ v) =
      Inr (set_item st ''feasibility'' (PInt n))"
    by (simp add: alternatives_line_def and_then_def)
  with n show ?thesis by blast
qed

lemma alternatives_line_ok:
  assumes "alt_state_ok st" and "alternatives_line st line = Inr st'"
  shows "alt_state_ok st'"
  using assms
  by (auto simp: alternatives_line_def alt_state_ok_def set_item_def and_then_def less_Suc_eq
        split: if_splits sum.splits)

lemma alternatives_loop_ok:
  "alt_state_ok st \<Longrightarrow> alternatives_loop lines st = Inr st' \<Longrightarrow> alt_state_ok st'"
proof (induction lines arbitrary: st)
  case Nil
  then show ?case by simp
next
  case (Cons line lines)
  from Cons.prems(2) obtain st1 where st1: "alternatives_line st line = Inr st1"
    "alternatives_loop lines st1 = Inr st'"
    by (auto simp: and_then_def split: sum.splits)
  from alternatives_line_ok [OF Cons.prems(1) st1(1)] st1(2) show ?case by (rule Cons.IH)
qed

text \<open>
  C7. Parsing a feasibility line never fails and is best-effort. The score parser returns
  an integer for every text, and 5 whenever reading the number raises. A decimal number
  followed by optional white space and a slash parses to that number whatever follows,
  so "8/10" gives 8; a decimal number followed by optional white space and "out of"
  parses to that number when no slash follows. (The numbers are those within the digit
  limit of the conversion.) A line that starts with "Feasibility:" always stores an
  integer under \<open>feasibility\<close>, and the conversion of a whole alternatives text always
  returns a list.
\<close>

theorem parse_feasibility_best_effort:
  "(\<exists>k. parse_feasibility feasibility_text = Inr k) \<and>
   (feasibility_of feasibility_text = Inl e \<longrightarrow> parse_feasibility feasibility_text = Inr 5) \<and>
   (length (str_nat n) \<le> int_max_str_digits \<and> (\<forall>c\<in>set ws. py_isspace c) \<longrightarrow>
      parse_feasibility (str_nat n @ ws @ ''/'' @ rest) = Inr (int n)) \<and>
   (length (str_nat n) \<le> int_max_str_digits \<and> (\<forall>c\<in>set ws. py_isspace c) \<and>
    CHR ''/'' \<notin> set rest \<longrightarrow>
      parse_feasibility (str_nat n @ ws @ ''out of'' @ rest) = Inr (int n)) \<and>
   (\<exists>k. parse_feasibility (py_strip v) = Inr k \<and>
        alternatives_line st (''Feasibility:'' @ v) =
          Inr (set_item st ''feasibility'' (PInt k))) \<and>
   (\<exists>alts. parse_alternatives alternatives_text = Inr alts)"
  using parse_feasibility_total [of feasibility_text]
    parse_feasibility_fallback [of feasibility_text e]
    parse_feasibility_slash [of n ws rest]
    parse_feasibility_out_of [of n ws rest]
    feasibility_line [of v st]
    parse_alternatives_total [of alternatives_text]
  by blast

lemma str_nat_8: "str_nat 8 = ''8''"
  by (simp add: str_nat.simps [of 8] digit_char_def)

theorem parse_feasibility_best_effort_witness:
  "parse_feasibility ''8/10'' = Inr 8 \<and>
   parse_feasibility ''8 out of 10'' = Inr 8 \<and>
   parse_feasibility ''high'' = Inr 5 \<and>
   map_sum id (map (\<lambda>d. (d ''approach'', d ''feasibility''))) (parse_alternatives sample_alternatives)
     = Inr [(Some (PStr ''buy''), Some (PInt 8)), (Some (PStr ''wait''), Some (PInt 5))]"
proof -
  have len: "length (str_nat 8) \<le> int_max_str_digits"
    by (simp add: str_nat_8 int_max_str_digits_def)
  have sp: "\<forall>c\<in>set '' ''. py_isspace c" by (simp add: py_isspace_def)
  have a: "parse_feasibility ''8/10'' = Inr 8"
    using parse_feasibility_best_effort [where n = 8 and ws = "[]" and rest = "''10''"] len
    by (simp add: str_nat_8)
  have b: "parse_feasibility ''8 out of 10'' = Inr 8"
    using parse_feasibility_best_effort [where n = 8 and ws = "'' ''" and rest = "'' 10''"] len sp
    by (simp add: str_nat_8)
  have "feasibility_of ''high'' = Inl ValueError"
    by (simp add: feasibility_of_def py_in_def py_int_def int_isspace_def digit_value_def)
  then have c: "parse_feasibility ''high'' = Inr 5"
    using parse_feasibility_best_effort [where feasibility_text = "''high''" and e = ValueError]
    by simp
  have d: "map_sum id (map (\<lambda>d. (d ''approach'', d ''feasibility''))) (parse_alternatives sample_alternatives)
     = Inr [(Some (PStr ''buy''), Some (PInt 8)), (Some (PStr ''wait''), Some (PInt 5))]"
    by code_simp
  from a b c d show ?thesis by simp
qed

subsection \<open>Final decisions\<close>

lemma py_float_error: "py_float s = Inl e \<Longrightarrow> e = ValueError"
  by (auto simp: py_float_def Let_def split: option.splits if_splits)

lemma confidence_line_step:
  assumes "startswith line ''Confidence:''"
  shows "final_decision_line dd line = Inr (dd(''confidence'' \<mapsto> DFloat (confidence_value line)))"
proof -
  from assms obtain v where line: "line = ''Confidence:'' @ v" by (auto simp: startswith_iff)
  have "field_text (''Confidence'' @ '':'' @ v) = Inr (py_strip v)"
    by (rule field_text_prefixed) simp
  then have ft: "field_text line = Inr (py_strip v)" by (simp add: line)
  have dr: "drop (length ''Confidence:'') line = v" by (simp add: line)
  have nd: "\<not> startswith line ''Decision:''" by (simp add: line)
  have cv: "confidence_value line = (case py_float (py_strip v) of Inl e \<Rightarrow> Finite 0 | Inr x \<Rightarrow> x)"
    unfolding confidence_value_def dr by (rule refl)
  show ?thesis
  proof (cases "py_float (py_strip v)")
    case (Inl e)
    with py_float_error [OF Inl] show ?thesis
      using assms nd ft by (simp add: final_decision_line_def and_then_def cv)
  next
    case (Inr x)
    then show ?thesis
      using assms nd ft by (simp add: final_decision_line_def and_then_def cv)
  qed
qed

lemma other_line_step:
  assumes "\<not> startswith line ''Confidence:''"
  shows "\<exists>dd'. final_decision_line dd line = Inr dd' \<and> dd' ''confidence'' = dd ''confidence'' \<and>
           dom dd \<subseteq> dom dd'"
proof -
  have f: "startswith line (key @ '':'') \<Longrightarrow> CHR '':'' \<notin> set key \<Longrightarrow> \<exists>v. field_text line = Inr v"
    for key by (rule field_text_key)
  note f1 = f [of "''Decision''", simplified] and f2 = f [of "''Reasoning''", simplified]
  show ?thesis
  proof (cases "startswith line ''Decision:''")
    case True
    with f1 obtain v where "field_text line = Inr v" by blast
    with True show ?thesis by (auto simp: final_decision_line_def and_then_def)
  next
    case False
    show ?thesis
    proof (cases "startswith line ''Reasoning:''")
      case True
      with f2 obtain v where "field_text line = Inr v" by blast
      with True False assms show ?thesis by (auto simp: final_decision_line_def and_then_def)
    next
      case nr: False
      with False assms show ?thesis by (simp add: final_decision_line_def)
    qed
  qed
qed

lemma final_decision_loop_confidence:
  "\<exists>dd'. final_decision_loop lines dd = Inr dd' \<and> dom dd \<subseteq> dom dd' \<and>
     dd' ''confidence'' =
       (if filter (\<lambda>line. startswith line ''Confidence:'') lines = [] then dd ''confidence''
        else Some (DFloat (confidence_value
               (last (filter (\<lambda>line. startswith line ''Confidence:'') lines)))))"
proof (induction lines arbitrary: dd)
  case Nil
  then show ?case by simp
next
  case (Cons line lines)
  show ?case
  proof (cases "startswith line ''Confidence:''")
    case True
    let ?dd1 = "dd(''confidence'' \<mapsto> DFloat (confidence_value line))"
    from Cons [of ?dd1] obtain dd' where dd': "final_decision_loop lines ?dd1 = Inr dd'"
      "dom ?dd1 \<subseteq> dom dd'"
      "dd' ''confidence'' =
        (if filter (\<lambda>line. startswith line ''Confidence:'') lines = [] then ?dd1 ''confidence''
         else Some (DFloat (confidence_value
                (last (filter (\<lambda>line. startswith line ''Confidence:'') lines)))))"
      by blast
    from dd'(2) have "dom dd \<subseteq> dom dd'" by auto
    with True dd'(1,3) show ?thesis
      by (simp add: confidence_line_step [OF True] and_then_def)
  next
    case False
    from other_line_step [OF False, of dd] obtain dd1 where dd1:
      "final_decision_line dd line = Inr dd1" "dd1 ''confidence'' = dd ''confidence''"
      "dom dd \<subseteq> dom dd1" by blast
    from Cons [of dd1] obtain dd' where dd': "final_decision_loop lines dd1 = Inr dd'"
      "dom dd1 \<subseteq> dom dd'"
      "dd' ''confidence'' =
        (if filter (\<lambda>line. startswith line ''Confidence:'') lines = [] then dd1 ''confidence''
         else Some (DFloat (confidence_value
                (last (filter (\<lambda>line. startswith line ''Confidence:'') lines)))))"
      by blast
    from dd1(3) dd'(2) have "dom dd \<subseteq> dom dd'" by blast
    with False dd1(1,2) dd'(1,3) show ?thesis by (simp add: and_then_def)
  qed
qed

lemma parse_final_decision_confidence:
  "\<exists>dd. parse_final_decision t = Inr dd \<and>
        {''decision'', ''confidence'', ''reasoning''} \<subseteq> dom dd \<and>
        dd ''confidence'' = Some (DFloat (final_confidence t))"
proof -
  let ?init = "[''decision'' \<mapsto> DVal (PStr []), ''confidence'' \<mapsto> DFloat (Finite 0),
          ''reasoning'' \<mapsto> DVal (PStr [])]"
  let ?lines = "py_split_loop [CHR 0x0A] (- 1) t"
  have sp: "py_split [CHR 0x0A] (- 1) t = Inr ?lines" by (simp add: py_split_def)
  from final_decision_loop_confidence [of ?lines ?init] obtain dd where dd:
    "final_decision_loop ?lines ?init = Inr dd" "dom ?init \<subseteq> dom dd"
    "dd ''confidence'' =
       (if filter (\<lambda>line. startswith line ''Confidence:'') ?lines = [] then ?init ''confidence''
        else Some (DFloat (confidence_value
               (last (filter (\<lambda>line. startswith line ''Confidence:'') ?lines)))))"
    by blast
  from dd(2) have "{''decision'', ''confidence'', ''reasoning''} \<subseteq> dom dd" by auto
  moreover from dd(3) have "dd ''confidence'' = Some (DFloat (final_confidence t))"
    by (simp add: final_confidence_def confidence_lines_def)
  ultimately show ?thesis using dd(1) sp by (simp add: parse_final_decision_def and_then_def)
qed

lemma analyze_task_confidence:
  "\<exists>dp. analyze_task task_text ctx a b c t = Inr dp \<and>
        confidence_score dp = DFloat (final_confidence t)"
proof -
  obtain alts where alts: "parse_alternatives b = Inr alts"
    using parse_alternatives_total by blast
  obtain dd where dd: "parse_final_decision t = Inr dd"
    "{''decision'', ''confidence'', ''reasoning''} \<subseteq> dom dd"
    "dd ''confidence'' = Some (DFloat (final_confidence t))"
    using parse_final_decision_confidence by blast
  from dd(2) obtain dec reas where "dd ''decision'' = Some dec" "dd ''reasoning'' = Some reas"
    by auto
  with alts dd(1,3) show ?thesis
    by (simp add: analyze_task_def and_then_def dict_item_def)
qed

text \<open>
  C9, as the code has it. The confidence score of a decision path produced by the
  enhanced agent is the entry that parsing the final-decision text leaves under
  \<open>confidence\<close>: 0 when no line of the text starts with "Confidence:", 0 when the text
  of the last such line is not a float, and otherwise the float written on that line,
  unchanged. It therefore lies in the interval from 0 to 1 exactly when the number
  written by the model does; nothing checks or clamps the range.
\<close>

theorem confidence_score_from_text:
  "(\<exists>dd. parse_final_decision t = Inr dd \<and>
         dd ''confidence'' = Some (DFloat (final_confidence t))) \<and>
   (\<exists>dp. analyze_task task_text ctx a b c t = Inr dp \<and>
         confidence_score dp = DFloat (final_confidence t)) \<and>
   (confidence_lines t = [] \<longrightarrow> final_confidence t = Finite 0) \<and>
   (confidence_lines t \<noteq> [] \<and>
    py_float (py_strip (drop (length ''Confidence:'') (last (confidence_lines t)))) = Inl e
      \<longrightarrow> final_confidence t = Finite 0) \<and>
   (confidence_lines t \<noteq> [] \<and>
    py_float (py_strip (drop (length ''Confidence:'') (last (confidence_lines t)))) = Inr x
      \<longrightarrow> final_confidence t = x \<and>
          (in_unit_interval (final_confidence t) \<longleftrightarrow> in_unit_interval x))"
proof -
  from parse_final_decision_confidence [of t]
  have "\<exists>dd. parse_final_decision t = Inr dd \<and>
         dd ''confidence'' = Some (DFloat (final_confidence t))" by blast
  then show ?thesis
    using analyze_task_confidence [of task_text ctx a b c t]
    by (auto simp: final_confidence_def confidence_value_def)
qed

theorem confidence_score_from_text_witness:
  "final_confidence ''Confidence: 0.8'' = Finite (4 / 5) \<and>
   in_unit_interval (final_confidence ''Confidence: 0.8'') \<and>
   final_confidence ''Decision: go'' = Finite 0 \<and>
   final_confidence ''Confidence: high'' = Finite 0 \<and>
   map_sum id confidence_score
     (analyze_task ''buy or wait'' Map.empty ''a'' ''b'' ''c'' ''Confidence: 0.8'')
     = Inr (DFloat (Finite (4 / 5)))"
proof -
  have l1: "confidence_lines ''Confidence: 0.8'' = [''Confidence: 0.8'']" by code_simp
  have l2: "confidence_lines ''Decision: go'' = []" by code_simp
  have l3: "confidence_lines ''Confidence: high'' = [''Confidence: high'']" by code_simp
  have f1: "py_float (py_strip (drop (length ''Confidence:'') (last [''Confidence: 0.8''])))
      = Inr (Finite (4 / 5))" by code_simp
  have f3: "py_float (py_strip (drop (length ''Confidence:'') (last [''Confidence: high''])))
      = Inl ValueError" by code_simp
  note t1 = confidence_score_from_text [where t = "''Confidence: 0.8''" and x = "Finite (4 / 5)"
      and task_text = "''buy or wait''" and ctx = Map.empty and a = "''a''" and b = "''b''"
      and c = "''c''"]
  note t2 = confidence_score_from_text [where t = "''Decision: go''"]
  note t3 = confidence_score_from_text [where t = "''Confidence: high''" and e = ValueError]
  from t1 l1 f1 have a: "final_confidence ''Confidence: 0.8'' = Finite (4 / 5)" by simp
  then have b: "in_unit_interval (final_confidence ''Confidence: 0.8'')" by simp
  from t2 l2 have c: "final_confidence ''Decision: go'' = Finite 0" by simp
  from t3 l3 f3 have d: "final_confidence ''Confidence: high'' = Finite 0" by simp
  from t1 have "\<exists>dp. analyze_task ''buy or wait'' Map.empty ''a'' ''b'' ''c'' ''Confidence: 0.8'' = Inr dp \<and>
      confidence_score dp = DFloat (final_confidence ''Confidence: 0.8'')"
    by (rule conjunct1 [OF conjunct2])
  then obtain dp where
    "analyze_task ''buy or wait'' Map.empty ''a'' ''b'' ''c'' ''Confidence: 0.8'' = Inr dp"
    "confidence_score dp = DFloat (final_confidence ''Confidence: 0.8'')" by blast
  with a have e: "map_sum id confidence_score
     (analyze_task ''buy or wait'' Map.empty ''a'' ''b'' ''c'' ''Confidence: 0.8'')
     = Inr (DFloat (Finite (4 / 5)))" by simp
  from a b c d e show ?thesis by simp
qed

text \<open>
  C9, as the claim states it, fails: a final-decision block that states the confidence
  1.5 yields a decision path whose confidence score is 1.5, outside the interval.
\<close>

theorem confidence_score_counterexample:
  "map_sum id confidence_score
     (analyze_task ''buy or wait'' Map.empty ''a'' ''b'' ''c'' overconfident_decision)
     = Inr (DFloat (Finite (3 / 2))) \<and>
   \<not> in_unit_interval (Finite (3 / 2))"
  by code_simp

end
